theory Spec2Isabelle
  imports Main "HOL-Library.AList"
begin

section \<open>Data model of the CSP engine\<close>

text \<open>
  The seven scripts under \<open>003_Sati_de_Restr\<close> each declare a class \<open>CSP\<close> with the
  same fields (\<open>variables\<close>, \<open>dominios\<close>, \<open>restricciones\<close>, \<open>vecinos\<close>); the one of
  \<open>004_Propa_de_Restri.py\<close> adds \<open>arcos\<close>. Variables are strings. A Python \<open>dict\<close> is
  an association list in insertion order (\<open>map_of\<close> reads a key, \<open>AList.update\<close> is
  \<open>d[k] = v\<close>, \<open>AList.delete\<close> is \<open>del d[k]\<close>). A constraint is a pair of its scope (the
  tuple of variables that is its key) and a predicate on the tuple of values, called as
  \<open>f(*valores)\<close>. A \<open>set\<close> of neighbours is the list of its elements in the order in which
  the set is iterated; general results are stated for every record, hence for every such
  order, and the concrete instances have at most one neighbour per variable.

  Up to the last section the predicates are total functions to \<open>bool\<close>: a predicate
  that always returns. The last section models predicates that may raise, with the
  loops over the constraints in dictionary order, and proves that on predicates that
  always return its checks and solvers are the ones defined here
  (\<open>es_consistente_elevar\<close>, \<open>obtener_variables_conflicto_elevar\<close>, \<open>backtrack_elevar\<close>,
  \<open>backjump_elevar\<close>).
\<close>

type_synonym var = string

datatype py_error = KeyError | IndexError | ValueError | ZeroDivisionError | TypeError

type_synonym 'v asignacion = "(var \<times> 'v) list"

type_synonym 'v dominios = "(var \<times> 'v list) list"

type_synonym 'v restriccion = "var list \<times> ('v list \<Rightarrow> bool)"

record 'v CSP =
  variables :: "var list"
  dominios :: "'v dominios"
  restricciones :: "'v restriccion list"
  vecinos :: "(var \<times> var list) list"
  arcos :: "(var \<times> var) list"

text \<open>\<open>k in d\<close> for a dictionary \<open>d\<close>.\<close>

definition en :: "var \<Rightarrow> (var \<times> 'a) list \<Rightarrow> bool" where
  "en k d = (map_of d k \<noteq> None)"

text \<open>\<open>tuple(asignacion[v] for v in scope)\<close>, read only where every \<open>v\<close> is a key.\<close>

definition valores_de :: "'v asignacion \<Rightarrow> var list \<Rightarrow> 'v list" where
  "valores_de asignacion scope = map (\<lambda>v. the (map_of asignacion v)) scope"

subsection \<open>Construction: \<open>CSP.__init__\<close>\<close>

text \<open>
  \<open>_calcular_vecinos\<close>: every variable starts with the empty set; for each key and each
  ordered pair of different variables of it, \<open>vecinos[var1].add(var2)\<close>, which raises
  \<open>KeyError\<close> when \<open>var1\<close> is not a declared variable.
\<close>

definition agregar_vecino ::
  "var \<times> var \<Rightarrow> py_error + (var \<times> var list) list \<Rightarrow> py_error + (var \<times> var list) list" where
  "agregar_vecino p acc =
     (case acc of
        Inl e \<Rightarrow> Inl e
      | Inr m \<Rightarrow>
          (case map_of m (fst p) of
             None \<Rightarrow> Inl KeyError
           | Some ns \<Rightarrow>
               Inr (AList.update (fst p) (if snd p \<in> set ns then ns else ns @ [snd p]) m)))"

definition pares_de :: "var list \<Rightarrow> (var \<times> var) list" where
  "pares_de scope =
     concat (map (\<lambda>var1. map (\<lambda>var2. (var1, var2)) (filter (\<lambda>var2. var1 \<noteq> var2) scope)) scope)"

definition calcular_vecinos ::
  "var list \<Rightarrow> 'v restriccion list \<Rightarrow> py_error + (var \<times> var list) list" where
  "calcular_vecinos vs rs =
     fold agregar_vecino (concat (map (\<lambda>r. pares_de (fst r)) rs))
       (Inr (fold (\<lambda>v. AList.update v []) vs []))"

text \<open>
  \<open>_calcular_arcos\<close> (only in \<open>004_Propa_de_Restri.py\<close>): unpacks every key as a pair,
  which raises \<open>ValueError\<close> on a key of another length.
\<close>

fun calcular_arcos :: "'v restriccion list \<Rightarrow> py_error + (var \<times> var) list" where
  "calcular_arcos [] = Inr []"
| "calcular_arcos (([var1, var2], f) # rs) =
     (case calcular_arcos rs of
        Inl e \<Rightarrow> Inl e
      | Inr a \<Rightarrow> Inr ((var1, var2) # (var2, var1) # a))"
| "calcular_arcos (r # rs) = Inl ValueError"

definition CSP_init ::
  "var list \<Rightarrow> 'v dominios \<Rightarrow> 'v restriccion list \<Rightarrow> py_error + 'v CSP" where
  "CSP_init vs ds rs =
     (case calcular_vecinos vs rs of
        Inl e \<Rightarrow> Inl e
      | Inr ns \<Rightarrow>
          Inr \<lparr>variables = vs, dominios = ds, restricciones = rs, vecinos = ns, arcos = []\<rparr>)"

definition CSP_init_arcos ::
  "var list \<Rightarrow> 'v dominios \<Rightarrow> 'v restriccion list \<Rightarrow> py_error + 'v CSP" where
  "CSP_init_arcos vs ds rs =
     (case calcular_vecinos vs rs of
        Inl e \<Rightarrow> Inl e
      | Inr ns \<Rightarrow>
          (case calcular_arcos rs of
             Inl e \<Rightarrow> Inl e
           | Inr a \<Rightarrow>
               Inr \<lparr>variables = vs, dominios = ds, restricciones = rs, vecinos = ns,
                    arcos = a\<rparr>))"

subsection \<open>The consistency check \<open>CSP.es_consistente\<close>\<close>

text \<open>
  A constraint is looked at when \<open>var\<close> is in its scope and every variable of the scope
  is a key of the assignment extended with \<open>var = valor\<close>; the check fails at the first
  such constraint whose predicate is false.
\<close>

definition aplicable :: "var \<Rightarrow> 'v asignacion \<Rightarrow> 'v restriccion \<Rightarrow> bool" where
  "aplicable var asignacion_temp r =
     (var \<in> set (fst r) \<and> list_all (\<lambda>v. en v asignacion_temp) (fst r))"

definition violada :: "var \<Rightarrow> 'v asignacion \<Rightarrow> 'v restriccion \<Rightarrow> bool" where
  "violada var asignacion_temp r =
     (aplicable var asignacion_temp r \<and> \<not> snd r (valores_de asignacion_temp (fst r)))"

definition es_consistente :: "'v CSP \<Rightarrow> var \<Rightarrow> 'v \<Rightarrow> 'v asignacion \<Rightarrow> bool" where
  "es_consistente csp var valor asignacion =
     (\<not> list_ex (violada var (AList.update var valor asignacion)) (restricciones csp))"

text \<open>
  A loop \<open>for x in xs: r = body(x); if r is not None: return r\<close> followed by
  \<open>return None\<close>: the first result that is not \<open>None\<close>, an exception included.
\<close>

fun primer_resultado :: "('a \<Rightarrow> py_error + 'b option) \<Rightarrow> 'a list \<Rightarrow> py_error + 'b option" where
  "primer_resultado f [] = Inr None"
| "primer_resultado f (x # xs) =
     (case f x of Inr None \<Rightarrow> primer_resultado f xs | r \<Rightarrow> r)"

lemma primer_resultado_cong [fundef_cong]:
  "xs = ys \<Longrightarrow> (\<And>x. x \<in> set ys \<Longrightarrow> f x = g x) \<Longrightarrow> primer_resultado f xs = primer_resultado g ys"
proof (induction ys arbitrary: xs)
  case Nil
  then show ?case by simp
next
  case (Cons y ys)
  then show ?case by (auto split: sum.splits option.splits)
qed


section \<open>Arc consistency: \<open>004_Propa_de_Restri.py\<close>\<close>

text \<open>
  \<open>CSP.es_consistente_binaria\<close>: the constraint keyed \<open>(var1, var2)\<close> when there is one,
  else (\<open>elif\<close>) the one keyed \<open>(var2, var1)\<close> with the values swapped, else \<open>True\<close>.
\<close>

definition es_consistente_binaria :: "'v CSP \<Rightarrow> var \<Rightarrow> 'v \<Rightarrow> var \<Rightarrow> 'v \<Rightarrow> bool" where
  "es_consistente_binaria csp var1 valor1 var2 valor2 =
     (case map_of (restricciones csp) [var1, var2] of
        Some f \<Rightarrow> f [valor1, valor2]
      | None \<Rightarrow>
          (case map_of (restricciones csp) [var2, var1] of
             Some f \<Rightarrow> f [valor2, valor1]
           | None \<Rightarrow> True))"

text \<open>The inner loop of \<open>revisar_arco\<close>: no value of \<open>dominios[xj]\<close> is consistent.\<close>

definition sin_soporte :: "'v CSP \<Rightarrow> var \<Rightarrow> var \<Rightarrow> 'v list \<Rightarrow> 'v \<Rightarrow> bool" where
  "sin_soporte csp xi xj dj valor_i =
     (\<not> list_ex (\<lambda>valor_j. es_consistente_binaria csp xi valor_i xj valor_j) dj)"

text \<open>
  \<open>revisar_arco\<close> collects the unsupported values of \<open>dominios[xi]\<close> and then removes
  them one by one with \<open>list.remove\<close> (\<open>remove1\<close>: the first occurrence). It mutates
  the dictionary it is given; the model returns \<open>(revisado, num_podas)\<close> and that
  dictionary. \<open>dominios[xj]\<close> is read only inside the outer loop, so a missing \<open>xj\<close>
  raises only when \<open>dominios[xi]\<close> is not empty.
\<close>

definition revisar_arco ::
  "'v CSP \<Rightarrow> var \<Rightarrow> var \<Rightarrow> 'v dominios \<Rightarrow> py_error + (bool \<times> nat \<times> 'v dominios)" where
  "revisar_arco csp xi xj doms =
     (case map_of doms xi of
        None \<Rightarrow> Inl KeyError
      | Some di \<Rightarrow>
          if di = [] then Inr (False, 0, doms)
          else
            (case map_of doms xj of
               None \<Rightarrow> Inl KeyError
             | Some dj \<Rightarrow>
                 (let valores_a_eliminar = filter (sin_soporte csp xi xj dj) di
                  in Inr (valores_a_eliminar \<noteq> [], length valores_a_eliminar,
                          AList.update xi (fold remove1 valores_a_eliminar di) doms))))"

text \<open>The number of values left in all domains: what the loop of \<open>ac3\<close> uses up.\<close>

definition tamano :: "'v dominios \<Rightarrow> nat" where
  "tamano doms = sum_list (map (\<lambda>p. length (snd p)) doms)"

lemma fold_remove1_keep:
  "\<forall>r \<in> set rs. r \<noteq> x \<Longrightarrow> fold remove1 rs (x # ys) = x # fold remove1 rs ys"
  by (induction rs arbitrary: ys) auto

lemma fold_remove1_filter:
  "fold remove1 (filter P xs) xs = filter (\<lambda>x. \<not> P x) xs"
proof (induction xs)
  case Nil
  then show ?case by simp
next
  case (Cons x xs)
  show ?case
  proof (cases "P x")
    case True
    then show ?thesis using Cons by simp
  next
    case False
    then have "\<forall>r \<in> set (filter P xs). r \<noteq> x" by auto
    then show ?thesis using False Cons by (simp add: fold_remove1_keep)
  qed
qed

lemma tamano_update:
  "map_of doms k = Some d \<Longrightarrow> tamano (AList.update k d' doms) + length d = tamano doms + length d'"
  by (induction doms) (auto simp: tamano_def)

lemma update_same: "map_of doms k = Some d \<Longrightarrow> AList.update k d doms = doms"
  by (induction doms) auto

lemma filter_neg_all: "filter P xs = [] \<Longrightarrow> filter (\<lambda>x. \<not> P x) xs = xs"
  by (induction xs) (auto split: if_splits)

lemma length_filter_neg_less:
  "filter P xs \<noteq> [] \<Longrightarrow> length (filter (\<lambda>x. \<not> P x) xs) < length xs"
  by (induction xs) (auto simp: less_Suc_eq_le)

lemma revisar_arco_sin_cambio:
  "revisar_arco csp xi xj doms = Inr (False, n, doms') \<Longrightarrow> doms' = doms"
  by (auto simp: revisar_arco_def Let_def fold_remove1_filter update_same filter_neg_all
      split: option.splits if_splits)

lemma revisar_arco_tamano:
  assumes "revisar_arco csp xi xj doms = Inr (True, n, doms')"
  shows "tamano doms' < tamano doms"
proof -
  from assms obtain di dj where
    di: "map_of doms xi = Some di" and
    d': "doms' = AList.update xi (filter (\<lambda>x. \<not> sin_soporte csp xi xj dj x) di) doms" and
    ne: "filter (sin_soporte csp xi xj dj) di \<noteq> []"
    by (auto simp: revisar_arco_def Let_def fold_remove1_filter split: option.splits if_splits)
  from tamano_update [OF di, of "filter (\<lambda>x. \<not> sin_soporte csp xi xj dj x) di"]
    length_filter_neg_less [OF ne] d'
  show ?thesis by simp
qed


text \<open>
  The \<open>while cola\<close> loop of \<open>ac3\<close>, the deque as a list: \<open>popleft\<close> takes the head,
  \<open>append\<close> adds at the end. The counters \<open>revisiones\<close> and \<open>podas\<close> are only printed.
  The loop ends because a revision that changes something shrinks a domain and one that
  changes nothing shortens the queue.
\<close>

function ac3_bucle ::
  "'v CSP \<Rightarrow> (var \<times> var) list \<Rightarrow> 'v dominios \<Rightarrow> py_error + (bool \<times> 'v dominios)" where
  "ac3_bucle csp [] doms = Inr (True, doms)"
| "ac3_bucle csp ((xi, xj) # cola) doms =
     (case revisar_arco csp xi xj doms of
        Inl e \<Rightarrow> Inl e
      | Inr (revisado, num_podas, doms') \<Rightarrow>
          if revisado then
            (case map_of doms' xi of
               None \<Rightarrow> Inl KeyError
             | Some di \<Rightarrow>
                 if di = [] then Inr (False, doms')
                 else
                   (case map_of (vecinos csp) xi of
                      None \<Rightarrow> Inl KeyError
                    | Some ns \<Rightarrow>
                        ac3_bucle csp
                          (cola @ map (\<lambda>xk. (xk, xi)) (filter (\<lambda>xk. xk \<noteq> xj) ns)) doms'))
          else ac3_bucle csp cola doms')"
  by pat_completeness auto
termination
proof (relation "measures [\<lambda>(csp, cola, doms). tamano doms, \<lambda>(csp, cola, doms). length cola]")
  show "wf (measures [\<lambda>(csp, cola, doms). tamano doms, \<lambda>(csp, cola, doms). length cola])"
    by simp
next
  fix csp :: "'v CSP" and xi xj cola doms x2 revisado y num_podas doms' di ns
  assume "revisar_arco csp xi xj doms = Inr x2" "(revisado, y) = x2"
    "(num_podas, doms') = y" "revisado"
  then have "revisar_arco csp xi xj doms = Inr (True, num_podas, doms')" by auto
  from revisar_arco_tamano [OF this]
  show "((csp, cola @ map (\<lambda>xk. (xk, xi)) (filter (\<lambda>xk. xk \<noteq> xj) ns), doms'),
         (csp, (xi, xj) # cola, doms))
        \<in> measures [\<lambda>(csp, cola, doms). tamano doms, \<lambda>(csp, cola, doms). length cola]"
    by simp
next
  fix csp :: "'v CSP" and xi xj cola doms x2 revisado y num_podas doms'
  assume "revisar_arco csp xi xj doms = Inr x2" "(revisado, y) = x2"
    "(num_podas, doms') = y" "\<not> revisado"
  then have "revisar_arco csp xi xj doms = Inr (False, num_podas, doms')" by auto
  from revisar_arco_sin_cambio [OF this]
  show "((csp, cola, doms'), (csp, (xi, xj) # cola, doms))
        \<in> measures [\<lambda>(csp, cola, doms). tamano doms, \<lambda>(csp, cola, doms). length cola]"
    by simp
qed

text \<open>
  \<open>{var: csp.dominios[var].copy() for var in csp.variables}\<close>: a fresh dictionary
  keyed by the variables, \<open>KeyError\<close> on a variable with no domain.
\<close>

fun copiar_dominios :: "'v dominios \<Rightarrow> var list \<Rightarrow> 'v dominios \<Rightarrow> py_error + 'v dominios" where
  "copiar_dominios ds [] acc = Inr acc"
| "copiar_dominios ds (v # vs) acc =
     (case map_of ds v of
        None \<Rightarrow> Inl KeyError
      | Some d \<Rightarrow> copiar_dominios ds vs (AList.update v d acc))"

text \<open>
  \<open>ac3(csp, cola_arcos)\<close>: the working domains are always copied from \<open>csp.dominios\<close>;
  the queue is \<open>csp.arcos\<close> when \<open>cola_arcos\<close> is \<open>None\<close>.
\<close>

definition ac3 ::
  "'v CSP \<Rightarrow> (var \<times> var) list option \<Rightarrow> py_error + (bool \<times> 'v dominios)" where
  "ac3 csp cola_arcos =
     (case copiar_dominios (dominios csp) (variables csp) [] of
        Inl e \<Rightarrow> Inl e
      | Inr doms \<Rightarrow>
          ac3_bucle csp (case cola_arcos of None \<Rightarrow> arcos csp | Some c \<Rightarrow> c) doms)"

subsection \<open>\<open>SolucionadorMAC\<close>\<close>

text \<open>
  \<open>min(variables_no_asignadas, key=lambda v: len(dominios[v]))\<close>: \<open>ValueError\<close> on the
  empty list, \<open>KeyError\<close> on a variable with no domain, else the first variable of
  least domain size.
\<close>

definition seleccionar_variable_mrv ::
  "'v CSP \<Rightarrow> 'v asignacion \<Rightarrow> 'v dominios \<Rightarrow> py_error + var" where
  "seleccionar_variable_mrv csp asignacion doms =
     (let variables_no_asignadas = filter (\<lambda>v. \<not> en v asignacion) (variables csp)
      in if variables_no_asignadas = [] then Inl ValueError
         else if list_ex (\<lambda>v. \<not> en v doms) variables_no_asignadas then Inl KeyError
         else Inr (arg_min_list (\<lambda>v. length (the (map_of doms v))) variables_no_asignadas))"

text \<open>
  The body of the value loop of \<open>SolucionadorMAC._backtrack\<close> up to the call of
  \<open>ac3\<close>, with \<open>asignacion[var] = valor\<close> already done. The copy
  \<open>dominios_nuevos\<close> with \<open>dominios_nuevos[var] = [valor]\<close> is built and then
  overwritten by the result of \<open>ac3(self.csp, arcos_afectados)\<close>, which never sees it.
\<close>

definition propagar_mac ::
  "'v CSP \<Rightarrow> 'v asignacion \<Rightarrow> 'v dominios \<Rightarrow> var \<Rightarrow> 'v \<Rightarrow> py_error + (bool \<times> 'v dominios)" where
  "propagar_mac csp asignacion doms var valor =
     (let dominios_nuevos = AList.update var [valor] doms
      in case map_of (vecinos csp) var of
           None \<Rightarrow> Inl KeyError
         | Some ns \<Rightarrow>
             (let arcos_afectados =
                    map (\<lambda>vecino. (vecino, var)) (filter (\<lambda>vecino. \<not> en vecino asignacion) ns)
              in ac3 csp (Some arcos_afectados)))"

definition no_asignadas :: "'v CSP \<Rightarrow> 'v asignacion \<Rightarrow> nat" where
  "no_asignadas csp asignacion = length (filter (\<lambda>v. \<not> en v asignacion) (variables csp))"

lemma en_update: "en v (AList.update k x d) = (v = k \<or> en v d)"
  by (simp add: en_def update_conv')

lemma no_asignadas_update:
  "var \<in> set (variables csp) \<Longrightarrow> \<not> en var asignacion \<Longrightarrow>
   no_asignadas csp (AList.update var valor asignacion) < no_asignadas csp asignacion"
proof -
  assume a: "var \<in> set (variables csp)" "\<not> en var asignacion"
  have "length (filter (\<lambda>v. \<not> (v = var \<or> en v asignacion)) xs)
        \<le> length (filter (\<lambda>v. \<not> en v asignacion) xs)" for xs
    by (induction xs) auto
  moreover have "var \<in> set xs \<Longrightarrow>
        length (filter (\<lambda>v. \<not> (v = var \<or> en v asignacion)) xs)
        < length (filter (\<lambda>v. \<not> en v asignacion) xs)" for xs
  proof (induction xs)
    case Nil
    then show ?case by simp
  next
    case (Cons x xs)
    have le: "length (filter (\<lambda>v. \<not> (v = var \<or> en v asignacion)) xs)
        \<le> length (filter (\<lambda>v. \<not> en v asignacion) xs)"
      by (induction xs) auto
    show ?case
    proof (cases "x = var")
      case True
      then show ?thesis using a le by (simp add: less_Suc_eq_le)
    next
      case False
      then show ?thesis using Cons by auto
    qed
  qed
  ultimately show ?thesis using a by (simp add: no_asignadas_def en_update)
qed

lemma arg_min_list_in': "xs \<noteq> [] \<Longrightarrow> arg_min_list f xs \<in> set xs"
  by (induction f xs rule: arg_min_list.induct) (auto simp: Let_def)

lemma seleccionar_variable_mrv_ok:
  "seleccionar_variable_mrv csp asignacion doms = Inr var \<Longrightarrow>
   var \<in> set (variables csp) \<and> \<not> en var asignacion"
proof -
  assume "seleccionar_variable_mrv csp asignacion doms = Inr var"
  then have ne: "filter (\<lambda>v. \<not> en v asignacion) (variables csp) \<noteq> []"
     and v: "var = arg_min_list (\<lambda>v. length (the (map_of doms v)))
               (filter (\<lambda>v. \<not> en v asignacion) (variables csp))"
    by (auto simp: seleccionar_variable_mrv_def Let_def split: if_splits)
  from arg_min_list_in' [OF ne] v show ?thesis by auto
qed

function backtrack_mac ::
  "'v CSP \<Rightarrow> 'v asignacion \<Rightarrow> 'v dominios \<Rightarrow> py_error + 'v asignacion option" where
  "backtrack_mac csp asignacion doms =
     (if length asignacion = length (variables csp) then Inr (Some asignacion)
      else
        (case seleccionar_variable_mrv csp asignacion doms of
           Inl e \<Rightarrow> Inl e
         | Inr var \<Rightarrow>
             (case map_of doms var of
                None \<Rightarrow> Inl KeyError
              | Some valores \<Rightarrow>
                  primer_resultado
                    (\<lambda>valor.
                       case propagar_mac csp (AList.update var valor asignacion) doms var valor of
                         Inl e \<Rightarrow> Inl e
                       | Inr (exito, dominios_nuevos) \<Rightarrow>
                           if exito
                           then backtrack_mac csp (AList.update var valor asignacion)
                                  dominios_nuevos
                           else Inr None)
                    valores)))"
  by pat_completeness auto
termination
proof (relation "measure (\<lambda>(csp, asignacion, doms). no_asignadas csp asignacion)")
  show "wf (measure (\<lambda>(csp, asignacion, doms). no_asignadas csp asignacion))" by simp
next
  fix csp :: "'v CSP" and asignacion doms var valores valor x2 exito dominios_nuevos
  assume "seleccionar_variable_mrv csp asignacion doms = Inr var"
  from seleccionar_variable_mrv_ok [OF this]
  show "((csp, AList.update var valor asignacion, dominios_nuevos), (csp, asignacion, doms))
        \<in> measure (\<lambda>(csp, asignacion, doms). no_asignadas csp asignacion)"
    by (simp add: no_asignadas_update)
qed

declare backtrack_mac.simps [simp del]

text \<open>
  \<open>SolucionadorMAC.resolver\<close>: AC-3 over all arcs, then the search from the empty
  assignment (the loop that prints three domain sizes reads only keys that \<open>ac3\<close> has
  already read).
\<close>

definition resolver_mac :: "'v CSP \<Rightarrow> py_error + 'v asignacion option" where
  "resolver_mac csp =
     (case ac3 csp None of
        Inl e \<Rightarrow> Inl e
      | Inr (exito, dominios_iniciales) \<Rightarrow>
          if \<not> exito then Inr None else backtrack_mac csp [] dominios_iniciales)"

section \<open>Results on arc revision and on the MAC solver\<close>

text \<open>
  Compatibility of a pair of values as the specification words it: every constraint
  keyed \<open>(Xi, Xj)\<close> or \<open>(Xj, Xi)\<close> holds. It is stated here only to be compared with
  \<open>es_consistente_binaria\<close>.
\<close>

definition compatible_segun_spec :: "'v CSP \<Rightarrow> var \<Rightarrow> 'v \<Rightarrow> var \<Rightarrow> 'v \<Rightarrow> bool" where
  "compatible_segun_spec csp xi a xj b =
     list_all
       (\<lambda>r. (if fst r = [xi, xj] then snd r [a, b] else True) \<and>
            (if fst r = [xj, xi] then snd r [b, a] else True))
       (restricciones csp)"

text \<open>Two variables with one value each and a constraint under each of the two keys.\<close>

definition siempre :: "int list \<Rightarrow> bool" where
  "siempre vs = True"

definition nunca :: "int list \<Rightarrow> bool" where
  "nunca vs = False"

definition csp_doble :: "int CSP" where
  "csp_doble = \<lparr>variables = [''A'', ''B''],
               dominios = [(''A'', [0]), (''B'', [0])],
               restricciones = [([''A'', ''B''], siempre), ([''B'', ''A''], nunca)],
               vecinos = [(''A'', [''B'']), (''B'', [''A''])],
               arcos = [(''A'', ''B''), (''B'', ''A''), (''B'', ''A''), (''A'', ''B'')]\<rparr>"

lemma csp_doble_init:
  "CSP_init_arcos [''A'', ''B''] [(''A'', [0]), (''B'', [0])]
     [([''A'', ''B''], siempre), ([''B'', ''A''], nunca)] = Inr csp_doble"
  by (simp add: CSP_init_arcos_def calcular_vecinos_def pares_de_def agregar_vecino_def
      csp_doble_def)




subsection \<open>Two variables that must differ\<close>

fun distintos :: "int list \<Rightarrow> bool" where
  "distintos [c1, c2] = (c1 \<noteq> c2)"
| "distintos vs = False"

definition csp_ab :: "int CSP" where
  "csp_ab = \<lparr>variables = [''A'', ''B''],
            dominios = [(''A'', [0, 1]), (''B'', [0, 1])],
            restricciones = [([''A'', ''B''], distintos)],
            vecinos = [(''A'', [''B'']), (''B'', [''A''])],
            arcos = [(''A'', ''B''), (''B'', ''A'')]\<rparr>"

lemma csp_ab_init:
  "CSP_init_arcos [''A'', ''B''] [(''A'', [0, 1]), (''B'', [0, 1])] [([''A'', ''B''], distintos)]
   = Inr csp_ab"
  by (simp add: CSP_init_arcos_def calcular_vecinos_def pares_de_def agregar_vecino_def csp_ab_def)

lemma csp_ab_campos [simp]:
  "variables csp_ab = [''A'', ''B'']"
  "dominios csp_ab = [(''A'', [0, 1]), (''B'', [0, 1])]"
  "restricciones csp_ab = [([''A'', ''B''], distintos)]"
  "vecinos csp_ab = [(''A'', [''B'']), (''B'', [''A''])]"
  "arcos csp_ab = [(''A'', ''B''), (''B'', ''A'')]"
  by (simp_all add: csp_ab_def)

lemma ecb_ab [simp]:
  "es_consistente_binaria csp_ab ''B'' b ''A'' a = (a \<noteq> b)"
  "es_consistente_binaria csp_ab ''A'' a ''B'' b = (a \<noteq> b)"
  by (simp_all add: es_consistente_binaria_def)

lemma rev_BA:
  "revisar_arco csp_ab ''B'' ''A'' [(''A'', [0, 1]), (''B'', [0, 1])]
   = Inr (False, 0, [(''A'', [0, 1]), (''B'', [0, 1])])"
  by (simp add: revisar_arco_def sin_soporte_def)

lemma rev_AB:
  "revisar_arco csp_ab ''A'' ''B'' [(''A'', [0, 1]), (''B'', [0, 1])]
   = Inr (False, 0, [(''A'', [0, 1]), (''B'', [0, 1])])"
  by (simp add: revisar_arco_def sin_soporte_def)

lemma rev_BA_fijado:
  "revisar_arco csp_ab ''B'' ''A'' [(''A'', [0]), (''B'', [0, 1])]
   = Inr (True, 1, [(''A'', [0]), (''B'', [1])])"
  by (simp add: revisar_arco_def sin_soporte_def)

lemma ac3_ab_None: "ac3 csp_ab None = Inr (True, [(''A'', [0, 1]), (''B'', [0, 1])])"
  by (simp add: ac3_def rev_AB rev_BA)

lemma ac3_ab_BA:
  "ac3 csp_ab (Some [(''B'', ''A'')]) = Inr (True, [(''A'', [0, 1]), (''B'', [0, 1])])"
  by (simp add: ac3_def rev_BA)

lemma ac3_ab_nil: "ac3 csp_ab (Some []) = Inr (True, [(''A'', [0, 1]), (''B'', [0, 1])])"
  by (simp add: ac3_def)

lemma propagar_ab_1:
  "propagar_mac csp_ab [(''A'', 0)] [(''A'', [0, 1]), (''B'', [0, 1])] ''A'' 0
   = Inr (True, [(''A'', [0, 1]), (''B'', [0, 1])])"
  by (simp add: propagar_mac_def ac3_ab_BA en_def)

lemma propagar_ab_2:
  "propagar_mac csp_ab [(''A'', 0), (''B'', 0)] [(''A'', [0, 1]), (''B'', [0, 1])] ''B'' 0
   = Inr (True, [(''A'', [0, 1]), (''B'', [0, 1])])"
  by (simp add: propagar_mac_def ac3_ab_nil en_def)

lemma mrv_ab_1:
  "seleccionar_variable_mrv csp_ab [(''A'', 0)] [(''A'', [0, 1]), (''B'', [0, 1])] = Inr ''B''"
  by (simp add: seleccionar_variable_mrv_def en_def)

lemma mrv_ab_0:
  "seleccionar_variable_mrv csp_ab [] [(''A'', [0, 1]), (''B'', [0, 1])] = Inr ''A''"
  by (simp add: seleccionar_variable_mrv_def en_def)

lemma backtrack_mac_ab_2:
  "backtrack_mac csp_ab [(''A'', 0), (''B'', 0)] [(''A'', [0, 1]), (''B'', [0, 1])]
   = Inr (Some [(''A'', 0), (''B'', 0)])"
  by (subst backtrack_mac.simps) simp

lemma backtrack_mac_ab_1:
  "backtrack_mac csp_ab [(''A'', 0)] [(''A'', [0, 1]), (''B'', [0, 1])]
   = Inr (Some [(''A'', 0), (''B'', 0)])"
  by (subst backtrack_mac.simps) (simp add: mrv_ab_1 propagar_ab_2 backtrack_mac_ab_2)

lemma backtrack_mac_ab_0:
  "backtrack_mac csp_ab [] [(''A'', [0, 1]), (''B'', [0, 1])]
   = Inr (Some [(''A'', 0), (''B'', 0)])"
  by (subst backtrack_mac.simps) (simp add: mrv_ab_0 propagar_ab_1 backtrack_mac_ab_1)

text \<open>
  C1 fails for the MAC solver. On two variables with domains \<open>[0, 1]\<close> that must differ,
  \<open>SolucionadorMAC.resolver\<close> returns \<open>{A: 0, B: 0}\<close>, which violates the only
  constraint: the search never calls a consistency check and each propagation starts
  again from the domains of the instance.
\<close>

theorem mac_devuelve_asignacion_inconsistente:
  "resolver_mac csp_ab = Inr (Some [(''A'', 0), (''B'', 0)]) \<and>
   restricciones csp_ab = [([''A'', ''B''], distintos)] \<and>
   \<not> distintos (valores_de [(''A'', 0), (''B'', 0)] [''A'', ''B''])"
  by (simp add: resolver_mac_def ac3_ab_None backtrack_mac_ab_0 valores_de_def)

text \<open>
  C3 fails. After \<open>A = 0\<close> the search state has the domain \<open>[0]\<close> for \<open>A\<close>, and the
  propagation of the arc \<open>(B, A)\<close> over that state prunes \<open>B\<close> to \<open>[1]\<close>. The solver
  instead propagates over the domains of the instance, so the recursive call receives
  \<open>[0, 1]\<close> for both variables.
\<close>

theorem mac_propaga_sobre_dominios_de_la_instancia:
  "propagar_mac csp_ab [(''A'', 0)] [(''A'', [0, 1]), (''B'', [0, 1])] ''A'' 0
     = Inr (True, [(''A'', [0, 1]), (''B'', [0, 1])]) \<and>
   ac3_bucle csp_ab [(''B'', ''A'')] (AList.update ''A'' [0] [(''A'', [0, 1]), (''B'', [0, 1])])
     = Inr (True, [(''A'', [0]), (''B'', [1])])"
  by (simp add: propagar_ab_1 rev_BA_fijado)

subsection \<open>Arc revision and the constraints it consults\<close>

lemma compatible_ab [simp]:
  "compatible_segun_spec csp_ab ''B'' b ''A'' a = (a \<noteq> b)"
  by (simp add: compatible_segun_spec_def)




section \<open>Plain backtracking: \<open>002_Bus_Vuel_Atras.py\<close>\<close>

text \<open>
  \<open>_seleccionar_variable_no_asignada\<close> returns the first variable that is not a key of
  the assignment, or \<open>None\<close>; \<open>self.csp.dominios[None]\<close> then raises \<open>KeyError\<close>.
\<close>

definition seleccionar_variable_no_asignada :: "'v CSP \<Rightarrow> 'v asignacion \<Rightarrow> var option" where
  "seleccionar_variable_no_asignada csp asignacion =
     find (\<lambda>v. \<not> en v asignacion) (variables csp)"

lemma seleccionar_variable_no_asignada_ok:
  "seleccionar_variable_no_asignada csp asignacion = Some var \<Longrightarrow>
   var \<in> set (variables csp) \<and> \<not> en var asignacion"
  by (auto simp: seleccionar_variable_no_asignada_def find_Some_iff)

text \<open>
  \<open>SolucionadorBacktracking._backtrack\<close>. The dictionary \<open>asignacion\<close> is shared by all
  frames: a frame adds \<open>var\<close> before the recursive call and deletes it after a failed
  one, so each iteration of the value loop starts from the frame's own assignment, and
  the model passes the extended assignment to the recursive call by value. The
  counters \<open>asignaciones_probadas\<close> and \<open>retrocesos\<close> are statistics only.
\<close>

function backtrack :: "'v CSP \<Rightarrow> 'v asignacion \<Rightarrow> py_error + 'v asignacion option" where
  "backtrack csp asignacion =
     (if length asignacion = length (variables csp) then Inr (Some asignacion)
      else
        (case seleccionar_variable_no_asignada csp asignacion of
           None \<Rightarrow> Inl KeyError
         | Some var \<Rightarrow>
             (case map_of (dominios csp) var of
                None \<Rightarrow> Inl KeyError
              | Some valores \<Rightarrow>
                  primer_resultado
                    (\<lambda>valor.
                       if es_consistente csp var valor asignacion
                       then backtrack csp (AList.update var valor asignacion)
                       else Inr None)
                    valores)))"
  by pat_completeness auto
termination
proof (relation "measure (\<lambda>(csp, asignacion). no_asignadas csp asignacion)")
  show "wf (measure (\<lambda>(csp, asignacion). no_asignadas csp asignacion))" by simp
next
  fix csp :: "'v CSP" and asignacion var valores valor
  assume "seleccionar_variable_no_asignada csp asignacion = Some var"
  from seleccionar_variable_no_asignada_ok [OF this]
  show "((csp, AList.update var valor asignacion), (csp, asignacion))
        \<in> measure (\<lambda>(csp, asignacion). no_asignadas csp asignacion)"
    by (simp add: no_asignadas_update)
qed

declare backtrack.simps [simp del]

definition resolver :: "'v CSP \<Rightarrow> py_error + 'v asignacion option" where
  "resolver csp = backtrack csp []"

section \<open>The tree solver of \<open>007_Acondi_Corte.py\<close>\<close>

text \<open>
  \<open>ordenar_topologicamente\<close>: a depth-first search from the root over the neighbours
  that are in \<open>variables\<close>, appending a variable after its subtree. The state is the
  pair of \<open>visitados\<close> and \<open>orden\<close>; the set \<open>variables\<close> is the list of its elements in
  iteration order, as is each set of neighbours.
\<close>

definition sin_visitar :: "var list \<Rightarrow> var list \<Rightarrow> nat" where
  "sin_visitar vars visitados = length (filter (\<lambda>v. v \<notin> set visitados) vars)"

function dfs ::
    "'v CSP \<Rightarrow> var list \<Rightarrow> var \<Rightarrow> var list \<times> var list \<Rightarrow> py_error + (var list \<times> var list)"
  and dfs_vecinos ::
    "'v CSP \<Rightarrow> var list \<Rightarrow> var list \<Rightarrow> var list \<times> var list \<Rightarrow> py_error + (var list \<times> var list)"
  where
  "dfs csp vars var (visitados, orden) =
     (case map_of (vecinos csp) var of
        None \<Rightarrow> Inl KeyError
      | Some ns \<Rightarrow>
          (case dfs_vecinos csp vars ns (var # visitados, orden) of
             Inl e \<Rightarrow> Inl e
           | Inr (visitados', orden') \<Rightarrow> Inr (visitados', orden' @ [var])))"
| "dfs_vecinos csp vars [] st = Inr st"
| "dfs_vecinos csp vars (vecino # ns) (visitados, orden) =
     (if vecino \<in> set vars \<and> vecino \<notin> set visitados then
        (case dfs csp vars vecino (visitados, orden) of
           Inl e \<Rightarrow> Inl e
         | Inr st' \<Rightarrow> dfs_vecinos csp vars ns st')
      else dfs_vecinos csp vars ns (visitados, orden))"
  by pat_completeness auto

lemma dfs_crece:
  "dfs_dfs_vecinos_dom (Inl (csp, vars, var, st)) \<Longrightarrow>
     dfs csp vars var st = Inr st' \<Longrightarrow> set (fst st) \<subseteq> set (fst st')"
  "dfs_dfs_vecinos_dom (Inr (csp, vars, ns, st)) \<Longrightarrow>
     dfs_vecinos csp vars ns st = Inr st' \<Longrightarrow> set (fst st) \<subseteq> set (fst st')"
proof (induction csp vars var st and csp vars ns st arbitrary: st' and st'
    rule: dfs_dfs_vecinos.pinduct)
  case (1 csp vars var visitados orden)
  from 1(1) 1(3) obtain ns a b where
    ns: "map_of (vecinos csp) var = Some ns" and
    r: "dfs_vecinos csp vars ns (var # visitados, orden) = Inr (a, b)" and
    st: "st' = (a, b @ [var])"
    by (auto simp: dfs.psimps split: option.splits sum.splits)
  from 1(2) [OF ns r] st show ?case by auto
next
  case (2 csp vars st)
  then show ?case by (simp add: dfs_vecinos.psimps)
next
  case (3 csp vars vecino ns visitados orden)
  show ?case
  proof (cases "vecino \<in> set vars \<and> vecino \<notin> set visitados")
    case True
    with 3(1) 3(5) obtain st1 where
      a: "dfs csp vars vecino (visitados, orden) = Inr st1" and
      b: "dfs_vecinos csp vars ns st1 = Inr st'"
      by (auto simp: dfs_vecinos.psimps split: sum.splits)
    from 3(2) [OF True a] 3(3) [OF True a b] show ?thesis by auto
  next
    case False
    with 3(1) 3(5) have "dfs_vecinos csp vars ns (visitados, orden) = Inr st'"
      by (auto simp: dfs_vecinos.psimps)
    from 3(4) [OF False this] show ?thesis .
  qed
qed

lemma sin_visitar_mono: "set a \<subseteq> set b \<Longrightarrow> sin_visitar vars b \<le> sin_visitar vars a"
proof -
  assume s: "set a \<subseteq> set b"
  have "length (filter (\<lambda>v. v \<notin> set b) xs) \<le> length (filter (\<lambda>v. v \<notin> set a) xs)" for xs
    using s by (induction xs) auto
  then show ?thesis by (simp add: sin_visitar_def)
qed

lemma sin_visitar_menos:
  "v \<in> set vars \<Longrightarrow> v \<notin> set vis \<Longrightarrow> sin_visitar vars (v # vis) < sin_visitar vars vis"
proof -
  assume a: "v \<in> set vars" "v \<notin> set vis"
  have le: "length (filter (\<lambda>x. x \<notin> set (v # vis)) xs)
            \<le> length (filter (\<lambda>x. x \<notin> set vis) xs)" for xs
    by (induction xs) auto
  have "v \<in> set xs \<Longrightarrow>
        length (filter (\<lambda>x. x \<notin> set (v # vis)) xs) < length (filter (\<lambda>x. x \<notin> set vis) xs)"
    for xs
  proof (induction xs)
    case Nil
    then show ?case by simp
  next
    case (Cons x xs)
    show ?case
    proof (cases "x = v")
      case True
      then show ?thesis using a le [of xs] by (simp add: less_Suc_eq_le)
    next
      case False
      then show ?thesis using Cons by auto
    qed
  qed
  then show ?thesis using a by (simp add: sin_visitar_def)
qed

termination dfs
proof (relation "measures
    [\<lambda>x. case x of Inl (csp, vars, var, st) \<Rightarrow> sin_visitar vars (var # fst st)
               | Inr (csp, vars, ns, st) \<Rightarrow> sin_visitar vars (fst st),
     \<lambda>x. case x of Inl (csp, vars, var, st) \<Rightarrow> 1 | Inr (csp, vars, ns, st) \<Rightarrow> 0,
     \<lambda>x. case x of Inl (csp, vars, var, st) \<Rightarrow> 0 | Inr (csp, vars, ns, st) \<Rightarrow> length ns]",
    goal_cases)
  case 1
  then show ?case by simp
next
  case (2 csp vars var visitados orden ns)
  then show ?case by simp
next
  case (3 csp vars vecino ns visitados orden)
  then show ?case by (simp add: sin_visitar_menos)
next
  case (4 csp vars vecino ns visitados orden st')
  from dfs_crece(1) [OF 4(3) 4(2)]
  have "sin_visitar vars (fst st') \<le> sin_visitar vars visitados"
    by (simp add: sin_visitar_mono)
  then show ?case by auto
next
  case (5 csp vars vecino ns visitados orden)
  then show ?case by simp
qed

definition ordenar_topologicamente :: "'v CSP \<Rightarrow> var \<Rightarrow> var list \<Rightarrow> py_error + var list" where
  "ordenar_topologicamente csp raiz vars =
     (case dfs csp vars raiz ([], []) of
        Inl e \<Rightarrow> Inl e
      | Inr (visitados, orden) \<Rightarrow> Inr orden)"

text \<open>
  Phase 1 of \<open>resolver_arbol_csp\<close>, over \<open>reversed(orden)\<close>: a variable that is not
  assigned keeps the values that pass \<open>es_consistente\<close> against the assignment, and the
  filtered list is stored with \<open>csp.dominios[var] = valores_validos\<close>, in the instance
  itself. The model returns the instance with whether the phase went through; a failure
  keeps the domains stored before it.
\<close>

fun podar_dominios ::
  "'v CSP \<Rightarrow> var list \<Rightarrow> 'v asignacion \<Rightarrow> py_error + (bool \<times> 'v CSP)" where
  "podar_dominios csp [] asignacion = Inr (True, csp)"
| "podar_dominios csp (var # resto) asignacion =
     (if en var asignacion then podar_dominios csp resto asignacion
      else
        (case map_of (dominios csp) var of
           None \<Rightarrow> Inl KeyError
         | Some d \<Rightarrow>
             (let valores_validos = filter (\<lambda>valor. es_consistente csp var valor asignacion) d
              in if valores_validos = [] then Inr (False, csp)
                 else podar_dominios
                        (csp\<lparr>dominios := AList.update var valores_validos (dominios csp)\<rparr>)
                        resto asignacion)))"

text \<open>
  Phase 2, over \<open>orden\<close>: a variable that is not assigned takes the first value of its
  domain that passes \<open>es_consistente\<close>; when there is none the \<open>for ... else\<close> returns
  \<open>None\<close>.
\<close>

fun asignar_en_orden ::
  "'v CSP \<Rightarrow> var list \<Rightarrow> 'v asignacion \<Rightarrow> py_error + 'v asignacion option" where
  "asignar_en_orden csp [] asignacion = Inr (Some asignacion)"
| "asignar_en_orden csp (var # resto) asignacion =
     (if en var asignacion then asignar_en_orden csp resto asignacion
      else
        (case map_of (dominios csp) var of
           None \<Rightarrow> Inl KeyError
         | Some d \<Rightarrow>
             (case find (\<lambda>valor. es_consistente csp var valor asignacion) d of
                None \<Rightarrow> Inr None
              | Some valor \<Rightarrow> asignar_en_orden csp resto (AList.update var valor asignacion))))"

text \<open>
  \<open>resolver_arbol_csp(csp, variables, asignacion)\<close>; the root is \<open>next(iter(variables))\<close>,
  the first element in iteration order. The result comes with the instance as the call
  leaves it.
\<close>

definition resolver_arbol_csp ::
  "'v CSP \<Rightarrow> var list \<Rightarrow> 'v asignacion \<Rightarrow> py_error + ('v asignacion option \<times> 'v CSP)" where
  "resolver_arbol_csp csp vars asignacion =
     (case vars of
        [] \<Rightarrow> Inr (Some asignacion, csp)
      | raiz # otras \<Rightarrow>
          (case ordenar_topologicamente csp raiz vars of
             Inl e \<Rightarrow> Inl e
           | Inr orden \<Rightarrow>
               (case podar_dominios csp (rev orden) asignacion of
                  Inl e \<Rightarrow> Inl e
                | Inr (completa, csp') \<Rightarrow>
                    if \<not> completa then Inr (None, csp')
                    else
                      (case asignar_en_orden csp' orden asignacion of
                         Inl e \<Rightarrow> Inl e
                       | Inr r \<Rightarrow> Inr (r, csp')))))"

subsection \<open>The tree solver on two variables\<close>

definition csp_ab_arbol :: "int CSP" where
  "csp_ab_arbol = \<lparr>variables = [''A'', ''B''],
            dominios = [(''A'', [0, 1]), (''B'', [0, 1])],
            restricciones = [([''A'', ''B''], distintos)],
            vecinos = [(''A'', [''B'']), (''B'', [''A''])],
            arcos = []\<rparr>"

lemma csp_ab_arbol_init:
  "CSP_init [''A'', ''B''] [(''A'', [0, 1]), (''B'', [0, 1])] [([''A'', ''B''], distintos)]
   = Inr csp_ab_arbol"
  by (simp add: CSP_init_def calcular_vecinos_def pares_de_def agregar_vecino_def
      csp_ab_arbol_def)

text \<open>
  C2 fails for the tree-solving pass. With \<open>A\<close> fixed to 0 as the cutset assignment and
  \<open>B\<close> left to the tree solver, the call returns \<open>{A: 0, B: 1}\<close> and leaves the domain of
  \<open>B\<close> in the instance as \<open>[1]\<close>, where it was \<open>[0, 1]\<close> before the call.
\<close>

theorem arbol_modifica_dominios_de_la_instancia:
  "resolver_arbol_csp csp_ab_arbol [''B''] [(''A'', 0)] =
     Inr (Some [(''A'', 0), (''B'', 1)],
          csp_ab_arbol\<lparr>dominios := [(''A'', [0, 1]), (''B'', [1])]\<rparr>) \<and>
   dominios csp_ab_arbol = [(''A'', [0, 1]), (''B'', [0, 1])]"
  by (simp add: resolver_arbol_csp_def ordenar_topologicamente_def csp_ab_arbol_def
      es_consistente_def violada_def aplicable_def en_def valores_de_def Let_def)

text \<open>Two variables that must both be 1.\<close>

fun ambos_uno :: "int list \<Rightarrow> bool" where
  "ambos_uno [a, b] = (a = 1 \<and> b = 1)"
| "ambos_uno vs = False"

definition csp_uno :: "int CSP" where
  "csp_uno = \<lparr>variables = [''A'', ''B''],
            dominios = [(''A'', [0, 1]), (''B'', [0, 1])],
            restricciones = [([''A'', ''B''], ambos_uno)],
            vecinos = [(''A'', [''B'']), (''B'', [''A''])],
            arcos = []\<rparr>"

lemma csp_uno_init:
  "CSP_init [''A'', ''B''] [(''A'', [0, 1]), (''B'', [0, 1])] [([''A'', ''B''], ambos_uno)]
   = Inr csp_uno"
  by (simp add: CSP_init_def calcular_vecinos_def pares_de_def agregar_vecino_def csp_uno_def)

text \<open>
  C4 fails. The constraint graph of \<open>csp_uno\<close> is a single edge, the cutset is empty and
  \<open>{A: 1, B: 1}\<close> satisfies the constraint with values of the domains, yet the tree
  solver returns \<open>None\<close> for either iteration order of the set \<open>{A, B}\<close>: phase 1 only
  filters against variables that are already assigned, and phase 2 commits the first
  value 0 to the first variable of \<open>orden\<close> and never revisits it.
\<close>

theorem arbol_no_encuentra_solucion_existente:
  "resolver_arbol_csp csp_uno [''A'', ''B''] [] = Inr (None, csp_uno) \<and>
   resolver_arbol_csp csp_uno [''B'', ''A''] [] = Inr (None, csp_uno) \<and>
   restricciones csp_uno = [([''A'', ''B''], ambos_uno)] \<and>
   ambos_uno (valores_de [(''A'', 1), (''B'', 1)] [''A'', ''B'']) \<and>
   map_of (dominios csp_uno) ''A'' = Some [0, 1] \<and>
   map_of (dominios csp_uno) ''B'' = Some [0, 1]"
  by (simp add: resolver_arbol_csp_def ordenar_topologicamente_def csp_uno_def
      es_consistente_def violada_def aplicable_def en_def valores_de_def Let_def)

section \<open>Local search: \<open>006_Bus_Loc_Min_Confli.py\<close>\<close>

text \<open>
  The global random generator is an explicit source: \<open>azar i\<close> is the \<open>i\<close>-th draw, and
  \<open>random.choice(xs)\<close> with the draw \<open>r\<close> is \<open>xs[r mod len(xs)]\<close>, \<open>IndexError\<close> on the
  empty list. Every run of the program is the model under some source.
\<close>

definition elegir :: "nat \<Rightarrow> 'a list \<Rightarrow> py_error + 'a" where
  "elegir r xs = (if xs = [] then Inl IndexError else Inr (xs ! (r mod length xs)))"

text \<open>
  \<open>CSP.contar_conflictos\<close>: the constraints with \<open>var\<close> in their scope, fully assigned
  once \<open>var = valor\<close> is added, whose predicate is false.
\<close>

definition contar_conflictos :: "'v CSP \<Rightarrow> var \<Rightarrow> 'v \<Rightarrow> 'v asignacion \<Rightarrow> nat" where
  "contar_conflictos csp var valor asignacion =
     length (filter (violada var (AList.update var valor asignacion)) (restricciones csp))"

text \<open>
  \<open>CSP.obtener_variables_en_conflicto\<close>: the union of the scopes of the fully assigned
  constraints whose predicate is false, turned into a list. Python leaves the order of
  \<open>list(variables_conflicto)\<close> open; the model fixes one, and since the only use of the
  list is a random draw from it, the runs over all random sources are the same.
\<close>

definition en_conflicto :: "'v asignacion \<Rightarrow> 'v restriccion \<Rightarrow> bool" where
  "en_conflicto asignacion r =
     (list_all (\<lambda>v. en v asignacion) (fst r) \<and> \<not> snd r (valores_de asignacion (fst r)))"

definition obtener_variables_en_conflicto :: "'v CSP \<Rightarrow> 'v asignacion \<Rightarrow> var list" where
  "obtener_variables_en_conflicto csp asignacion =
     remdups (concat (map fst (filter (en_conflicto asignacion) (restricciones csp))))"

text \<open>\<open>{var: random.choice(csp.dominios[var]) for var in csp.variables}\<close>, one draw each.\<close>

fun asignacion_inicial ::
  "(nat \<Rightarrow> nat) \<Rightarrow> nat \<Rightarrow> 'v CSP \<Rightarrow> var list \<Rightarrow> 'v asignacion \<Rightarrow> py_error + ('v asignacion \<times> nat)" where
  "asignacion_inicial azar i csp [] acc = Inr (acc, i)"
| "asignacion_inicial azar i csp (var # vs) acc =
     (case map_of (dominios csp) var of
        None \<Rightarrow> Inl KeyError
      | Some d \<Rightarrow>
          (case elegir (azar i) d of
             Inl e \<Rightarrow> Inl e
           | Inr valor \<Rightarrow> asignacion_inicial azar (Suc i) csp vs (AList.update var valor acc)))"

text \<open>
  The loop that collects \<open>valores_minimos\<close>; \<open>min_conflictos\<close> starts at
  \<open>float('inf')\<close>, here \<open>None\<close>.
\<close>

definition paso_minimo ::
  "'v CSP \<Rightarrow> var \<Rightarrow> 'v asignacion \<Rightarrow> 'v \<Rightarrow> nat option \<times> 'v list \<Rightarrow> nat option \<times> 'v list" where
  "paso_minimo csp var asignacion valor st =
     (let num_conflictos = contar_conflictos csp var valor asignacion
      in case fst st of
           None \<Rightarrow> (Some num_conflictos, [valor])
         | Some min_conflictos \<Rightarrow>
             if num_conflictos < min_conflictos then (Some num_conflictos, [valor])
             else if num_conflictos = min_conflictos then (fst st, snd st @ [valor])
             else st)"

definition valores_minimos :: "'v CSP \<Rightarrow> var \<Rightarrow> 'v list \<Rightarrow> 'v asignacion \<Rightarrow> 'v list" where
  "valores_minimos csp var d asignacion = snd (fold (paso_minimo csp var asignacion) d (None, []))"

text \<open>
  The \<open>for paso in range(max_pasos)\<close> loop, with the number of steps left; a step takes
  two draws. Falling out of the loop returns \<open>None\<close>.
\<close>

fun min_conflicts_bucle ::
  "(nat \<Rightarrow> nat) \<Rightarrow> nat \<Rightarrow> 'v CSP \<Rightarrow> nat \<Rightarrow> 'v asignacion \<Rightarrow> py_error + 'v asignacion option" where
  "min_conflicts_bucle azar i csp 0 asignacion = Inr None"
| "min_conflicts_bucle azar i csp (Suc pasos) asignacion =
     (let variables_conflicto = obtener_variables_en_conflicto csp asignacion
      in if variables_conflicto = [] then Inr (Some asignacion)
         else
           (case elegir (azar i) variables_conflicto of
              Inl e \<Rightarrow> Inl e
            | Inr var \<Rightarrow>
                (case map_of (dominios csp) var of
                   None \<Rightarrow> Inl KeyError
                 | Some d \<Rightarrow>
                     (case elegir (azar (Suc i)) (valores_minimos csp var d asignacion) of
                        Inl e \<Rightarrow> Inl e
                      | Inr valor \<Rightarrow>
                          min_conflicts_bucle azar (Suc (Suc i)) csp pasos
                            (AList.update var valor asignacion)))))"

definition min_conflicts :: "(nat \<Rightarrow> nat) \<Rightarrow> 'v CSP \<Rightarrow> int \<Rightarrow> py_error + 'v asignacion option" where
  "min_conflicts azar csp max_pasos =
     (case asignacion_inicial azar 0 csp (variables csp) [] of
        Inl e \<Rightarrow> Inl e
      | Inr (asignacion, i) \<Rightarrow> min_conflicts_bucle azar i csp (nat max_pasos) asignacion)"

lemma en_claves: "en v d \<longleftrightarrow> v \<in> set (map fst d)"
  by (simp add: en_def map_of_eq_None_iff)

lemma elegir_en: "elegir r xs = Inr x \<Longrightarrow> x \<in> set xs"
  by (auto simp: elegir_def split: if_splits)

lemma asignacion_inicial_claves:
  "asignacion_inicial azar i csp vs acc = Inr (a, j) \<Longrightarrow>
   set (map fst a) = set (map fst acc) \<union> set vs \<and> (distinct (map fst acc) \<longrightarrow> distinct (map fst a))"
proof (induction vs arbitrary: acc i)
  case Nil
  then show ?case by simp
next
  case (Cons v vs)
  from Cons.prems obtain d valor where
    "asignacion_inicial azar (Suc i) csp vs (AList.update v valor acc) = Inr (a, j)"
    by (auto split: option.splits sum.splits)
  from Cons.IH [OF this] show ?case
    by (auto simp: dom_update distinct_update)
qed

lemma conflicto_asignada:
  assumes "var \<in> set (obtener_variables_en_conflicto csp asignacion)"
  shows "var \<in> set (map fst asignacion)"
proof -
  from assms obtain r where "r \<in> set (restricciones csp)" "en_conflicto asignacion r"
    "var \<in> set (fst r)"
    by (auto simp: obtener_variables_en_conflicto_def)
  then have "en var asignacion" by (auto simp: en_conflicto_def list_all_iff)
  then show ?thesis by (simp add: en_claves)
qed

lemma min_conflicts_bucle_resultado:
  "min_conflicts_bucle azar i csp pasos asignacion = Inr (Some a) \<Longrightarrow>
   map fst a = map fst asignacion \<and> obtener_variables_en_conflicto csp a = []"
proof (induction pasos arbitrary: i asignacion)
  case 0
  then show ?case by simp
next
  case (Suc pasos)
  show ?case
  proof (cases "obtener_variables_en_conflicto csp asignacion = []")
    case True
    with Suc.prems show ?thesis by simp
  next
    case False
    with Suc.prems obtain var d valor where
      v: "elegir (azar i) (obtener_variables_en_conflicto csp asignacion) = Inr var" and
      r: "min_conflicts_bucle azar (Suc (Suc i)) csp pasos (AList.update var valor asignacion)
          = Inr (Some a)"
      by (auto simp: Let_def split: sum.splits option.splits)
    from conflicto_asignada [OF elegir_en [OF v]]
    have "map fst (AList.update var valor asignacion) = map fst asignacion"
      by (simp add: update_keys)
    with Suc.IH [OF r] show ?thesis by simp
  qed
qed

lemma sin_conflicto_satisface:
  assumes "obtener_variables_en_conflicto csp a = []"
    and "r \<in> set (restricciones csp)" and "fst r \<noteq> []"
    and "set (fst r) \<subseteq> set (map fst a)"
  shows "snd r (valores_de a (fst r))"
proof (rule ccontr)
  assume n: "\<not> snd r (valores_de a (fst r))"
  from assms(4) have "list_all (\<lambda>v. en v a) (fst r)"
    by (auto simp: list_all_iff en_claves)
  with n have "en_conflicto a r" by (simp add: en_conflicto_def)
  with assms(2) have "set (fst r) \<subseteq> set (obtener_variables_en_conflicto csp a)"
    by (auto simp: obtener_variables_en_conflicto_def)
  with assms(1) assms(3) show False by simp
qed

text \<open>
  C7, amended. If every constraint has a scope that is not empty and lies within the
  declared variables, an assignment returned by \<open>min_conflicts\<close> has exactly the declared
  variables as keys, once each, and satisfies every constraint.
\<close>

theorem min_conflicts_devuelve_solucion:
  assumes decl: "list_all (\<lambda>r. fst r \<noteq> [] \<and> set (fst r) \<subseteq> set (variables csp)) (restricciones csp)"
    and res: "min_conflicts azar csp max_pasos = Inr (Some a)"
  shows "set (map fst a) = set (variables csp) \<and> distinct (map fst a) \<and>
         list_all (\<lambda>r. snd r (valores_de a (fst r))) (restricciones csp)"
proof -
  from res obtain a0 i where
    ini: "asignacion_inicial azar 0 csp (variables csp) [] = Inr (a0, i)" and
    buc: "min_conflicts_bucle azar i csp (nat max_pasos) a0 = Inr (Some a)"
    by (auto simp: min_conflicts_def split: sum.splits)
  from asignacion_inicial_claves [OF ini]
  have k0: "set (map fst a0) = set (variables csp)" "distinct (map fst a0)" by auto
  from min_conflicts_bucle_resultado [OF buc]
  have k: "map fst a = map fst a0" and sc: "obtener_variables_en_conflicto csp a = []" by auto
  have "snd r (valores_de a (fst r))" if "r \<in> set (restricciones csp)" for r
  proof -
    from decl that have "fst r \<noteq> []" "set (fst r) \<subseteq> set (variables csp)"
      by (auto simp: list_all_iff)
    with k k0 sin_conflicto_satisface [OF sc that] show ?thesis by simp
  qed
  with k k0 show ?thesis by (simp add: list_all_iff)
qed

subsection \<open>Runs of \<open>min_conflicts\<close> with the source that always draws 0\<close>

definition azar_cero :: "nat \<Rightarrow> nat" where
  "azar_cero i = 0"

lemma min_conflicts_ab: "min_conflicts azar_cero csp_ab_arbol 2 = Inr (Some [(''A'', 1), (''B'', 0)])"
  by (simp add: min_conflicts_def csp_ab_arbol_def elegir_def azar_cero_def
      obtener_variables_en_conflicto_def en_conflicto_def valores_de_def en_def
      valores_minimos_def paso_minimo_def contar_conflictos_def violada_def aplicable_def
      numeral_2_eq_2 Let_def)

theorem min_conflicts_devuelve_solucion_witness:
  "list_all (\<lambda>r. fst r \<noteq> [] \<and> set (fst r) \<subseteq> set (variables csp_ab_arbol))
     (restricciones csp_ab_arbol) \<and>
   min_conflicts azar_cero csp_ab_arbol 2 = Inr (Some [(''A'', 1), (''B'', 0)]) \<and>
   set (map fst [(''A'', 1::int), (''B'', 0)]) = set (variables csp_ab_arbol) \<and>
   distinct (map fst [(''A'', 1::int), (''B'', 0)]) \<and>
   list_all (\<lambda>r. snd r (valores_de [(''A'', 1), (''B'', 0)] (fst r))) (restricciones csp_ab_arbol)"
proof -
  have h: "list_all (\<lambda>r. fst r \<noteq> [] \<and> set (fst r) \<subseteq> set (variables csp_ab_arbol))
     (restricciones csp_ab_arbol)"
    by (simp add: csp_ab_arbol_def)
  from min_conflicts_devuelve_solucion [OF h min_conflicts_ab] h min_conflicts_ab show ?thesis by simp
qed

text \<open>
  C7 as stated fails on a constraint with the empty scope: it has no variables to report
  as conflicted, so \<open>obtener_variables_en_conflicto\<close> is empty and the assignment is
  returned although the constraint is false.
\<close>

definition csp_sin_alcance :: "int CSP" where
  "csp_sin_alcance = \<lparr>variables = [''A''], dominios = [(''A'', [0])],
       restricciones = [([], nunca)], vecinos = [(''A'', [])], arcos = []\<rparr>"

lemma csp_sin_alcance_init:
  "CSP_init [''A''] [(''A'', [0])] [([], nunca)] = Inr csp_sin_alcance"
  by (simp add: CSP_init_def calcular_vecinos_def pares_de_def agregar_vecino_def
      csp_sin_alcance_def)

theorem min_conflicts_ignora_alcance_vacio:
  "min_conflicts azar_cero csp_sin_alcance 1 = Inr (Some [(''A'', 0)]) \<and>
   list_all (\<lambda>r. set (fst r) \<subseteq> set (variables csp_sin_alcance)) (restricciones csp_sin_alcance) \<and>
   \<not> list_all (\<lambda>r. snd r (valores_de [(''A'', 0)] (fst r))) (restricciones csp_sin_alcance)"
  by (simp add: min_conflicts_def csp_sin_alcance_def elegir_def azar_cero_def
      obtener_variables_en_conflicto_def en_conflicto_def nunca_def valores_de_def)

section \<open>Conflict-directed backjumping: \<open>005_Salt_Atras_Diri_Conf.py\<close>\<close>

text \<open>
  \<open>_backjump\<close> returns a dictionary, a set of variables or the string \<open>"FALLO"\<close>; the
  three are told apart with \<open>isinstance\<close>.
\<close>

datatype 'v resultado_bj = Exito "'v asignacion" | Conflicto "var set" | FALLO

text \<open>
  \<open>CSP.obtener_variables_conflicto\<close>: for every constraint that \<open>var = valor\<close> violates,
  the other variables of its scope that are keys of the assignment.
\<close>

definition obtener_variables_conflicto :: "'v CSP \<Rightarrow> var \<Rightarrow> 'v \<Rightarrow> 'v asignacion \<Rightarrow> var set" where
  "obtener_variables_conflicto csp var valor asignacion =
     set (concat (map (\<lambda>r. filter (\<lambda>v. v \<noteq> var \<and> en v asignacion) (fst r))
                   (filter (violada var (AList.update var valor asignacion)) (restricciones csp))))"

text \<open>\<open>_seleccionar_variable\<close>: the first variable that is not assigned, or \<open>None\<close>.\<close>

definition seleccionar_variable :: "'v CSP \<Rightarrow> 'v asignacion \<Rightarrow> var option" where
  "seleccionar_variable csp asignacion = find (\<lambda>v. \<not> en v asignacion) (variables csp)"

text \<open>
  A \<open>for\<close> loop over a list that updates a local state and may \<open>return\<close> from the
  function: the body gives \<open>Inl r\<close> to return \<open>r\<close> and \<open>Inr s\<close> to go on with state \<open>s\<close>.
\<close>

fun iterar :: "('a \<Rightarrow> 's \<Rightarrow> py_error + ('r + 's)) \<Rightarrow> 'a list \<Rightarrow> 's \<Rightarrow> py_error + ('r + 's)" where
  "iterar f [] s = Inr (Inr s)"
| "iterar f (x # xs) s =
     (case f x s of
        Inl e \<Rightarrow> Inl e
      | Inr (Inl r) \<Rightarrow> Inr (Inl r)
      | Inr (Inr s') \<Rightarrow> iterar f xs s')"

lemma iterar_cong [fundef_cong]:
  "xs = ys \<Longrightarrow> s = t \<Longrightarrow> (\<And>x u. x \<in> set ys \<Longrightarrow> f x u = g x u) \<Longrightarrow>
   iterar f xs s = iterar g ys t"
proof (induction ys arbitrary: xs s t)
  case Nil
  then show ?case by simp
next
  case (Cons y ys)
  then show ?case by (auto split: sum.splits)
qed

text \<open>
  \<open>SolucionadorBackjumping._backjump\<close>. Of the shared dictionary
  \<open>conjuntos_conflicto\<close> a frame reads only the entry of its own variable: it resets it
  to the empty set on entry, and the frames below write the entries of variables that
  are unassigned while this variable is assigned. The entry is therefore the local state
  \<open>conjunto_var\<close> of the value loop. Sets are values; the in-place
  \<open>conjunto_conf.remove(var)\<close> changes an entry that is reset before it is read again.
  The assignment is passed by value as in \<open>backtrack\<close>; \<open>nivel\<close> and the counters are
  not read.
\<close>

function backjump :: "'v CSP \<Rightarrow> 'v asignacion \<Rightarrow> py_error + 'v resultado_bj" where
  "backjump csp asignacion =
     (if length asignacion = length (variables csp) then Inr (Exito asignacion)
      else
        (case seleccionar_variable csp asignacion of
           None \<Rightarrow> Inl KeyError
         | Some var \<Rightarrow>
             (case map_of (dominios csp) var of
                None \<Rightarrow> Inl KeyError
              | Some valores \<Rightarrow>
                  (case iterar
                          (\<lambda>valor conjunto_var.
                             if es_consistente csp var valor asignacion then
                               (case backjump csp (AList.update var valor asignacion) of
                                  Inl e \<Rightarrow> Inl e
                                | Inr (Exito a) \<Rightarrow> Inr (Inl (Exito a))
                                | Inr (Conflicto conjunto_conf) \<Rightarrow>
                                    if var \<notin> conjunto_conf then Inr (Inl (Conflicto conjunto_conf))
                                    else Inr (Inr (conjunto_var \<union> (conjunto_conf - {var})))
                                | Inr FALLO \<Rightarrow> Inr (Inr conjunto_var))
                             else
                               Inr (Inr (conjunto_var \<union>
                                         obtener_variables_conflicto csp var valor asignacion)))
                          valores {} of
                     Inl e \<Rightarrow> Inl e
                   | Inr (Inl r) \<Rightarrow> Inr r
                   | Inr (Inr conjunto_var) \<Rightarrow>
                       Inr (if conjunto_var \<noteq> {} then Conflicto conjunto_var else FALLO)))))"
  by pat_completeness auto
termination
proof (relation "measure (\<lambda>(csp, asignacion). no_asignadas csp asignacion)")
  show "wf (measure (\<lambda>(csp, asignacion). no_asignadas csp asignacion))" by simp
next
  fix csp :: "'v CSP" and asignacion var valores valor and conjunto_var :: "var set"
  assume "seleccionar_variable csp asignacion = Some var"
  then have "var \<in> set (variables csp) \<and> \<not> en var asignacion"
    by (auto simp: seleccionar_variable_def find_Some_iff)
  then show "((csp, AList.update var valor asignacion), (csp, asignacion))
        \<in> measure (\<lambda>(csp, asignacion). no_asignadas csp asignacion)"
    by (simp add: no_asignadas_update)
qed

declare backjump.simps [simp del]

text \<open>
  \<open>SolucionadorBackjumping.resolver\<close>: \<open>resultado if resultado != "FALLO" else None\<close>;
  whatever is not the string is handed to the caller.
\<close>

definition resolver_backjumping :: "'v CSP \<Rightarrow> py_error + 'v resultado_bj option" where
  "resolver_backjumping csp =
     (case backjump csp [] of
        Inl e \<Rightarrow> Inl e
      | Inr resultado \<Rightarrow> Inr (if resultado \<noteq> FALLO then Some resultado else None))"

text \<open>The body of the value loop of \<open>_backjump\<close>, named for the proofs.\<close>

definition cuerpo_bj ::
  "'v CSP \<Rightarrow> 'v asignacion \<Rightarrow> var \<Rightarrow> 'v \<Rightarrow> var set \<Rightarrow> py_error + ('v resultado_bj + var set)" where
  "cuerpo_bj csp asignacion var valor conjunto_var =
     (if es_consistente csp var valor asignacion then
        (case backjump csp (AList.update var valor asignacion) of
           Inl e \<Rightarrow> Inl e
         | Inr (Exito a) \<Rightarrow> Inr (Inl (Exito a))
         | Inr (Conflicto conjunto_conf) \<Rightarrow>
             if var \<notin> conjunto_conf then Inr (Inl (Conflicto conjunto_conf))
             else Inr (Inr (conjunto_var \<union> (conjunto_conf - {var})))
         | Inr FALLO \<Rightarrow> Inr (Inr conjunto_var))
      else Inr (Inr (conjunto_var \<union> obtener_variables_conflicto csp var valor asignacion)))"

lemma backjump_desplegado:
  "backjump csp asignacion =
     (if length asignacion = length (variables csp) then Inr (Exito asignacion)
      else
        (case seleccionar_variable csp asignacion of
           None \<Rightarrow> Inl KeyError
         | Some var \<Rightarrow>
             (case map_of (dominios csp) var of
                None \<Rightarrow> Inl KeyError
              | Some valores \<Rightarrow>
                  (case iterar (cuerpo_bj csp asignacion var) valores {} of
                     Inl e \<Rightarrow> Inl e
                   | Inr (Inl r) \<Rightarrow> Inr r
                   | Inr (Inr conjunto_var) \<Rightarrow>
                       Inr (if conjunto_var \<noteq> {} then Conflicto conjunto_var else FALLO)))))"
  unfolding cuerpo_bj_def [abs_def] by (rule backjump.simps)

subsection \<open>Conflict sets name assigned variables only\<close>

lemma obtener_variables_conflicto_asignadas:
  "obtener_variables_conflicto csp var valor asignacion \<subseteq> set (map fst asignacion) - {var}"
  by (auto simp: obtener_variables_conflicto_def en_claves)

lemma claves_update: "set (map fst (AList.update k v al)) = insert k (set (map fst al))"
  by (auto simp: dom_update)

lemma iterar_conflicto:
  assumes hi: "\<forall>valor \<in> set vs. \<forall>S. es_consistente csp var valor asignacion \<longrightarrow>
            backjump csp (AList.update var valor asignacion) = Inr (Conflicto S) \<longrightarrow>
            S \<subseteq> insert var K \<and> S \<noteq> {}"
    and k: "K = set (map fst asignacion)"
  shows "(iterar (cuerpo_bj csp asignacion var) vs c0 = Inr (Inr c) \<longrightarrow> c0 \<subseteq> K \<longrightarrow> c \<subseteq> K) \<and>
         (iterar (cuerpo_bj csp asignacion var) vs c0 = Inr (Inl r) \<longrightarrow>
            (case r of Conflicto S \<Rightarrow> S \<subseteq> K \<and> S \<noteq> {} | Exito a \<Rightarrow> True | FALLO \<Rightarrow> False))"
  using hi
proof (induction vs arbitrary: c0)
  case Nil
  then show ?case by simp
next
  case (Cons valor vs)
  from Cons.prems have hi': "\<forall>valor \<in> set vs. \<forall>S. es_consistente csp var valor asignacion \<longrightarrow>
            backjump csp (AList.update var valor asignacion) = Inr (Conflicto S) \<longrightarrow>
            S \<subseteq> insert var K \<and> S \<noteq> {}"
    by simp
  note IH = Cons.IH [OF hi']
  have hv: "S \<subseteq> insert var K \<and> S \<noteq> {}"
    if "es_consistente csp var valor asignacion"
       "backjump csp (AList.update var valor asignacion) = Inr (Conflicto S)" for S
    using Cons.prems that by simp
  show ?case
  proof (cases "cuerpo_bj csp asignacion var valor c0")
    case (Inl e)
    then show ?thesis by simp
  next
    case (Inr x)
    show ?thesis
    proof (cases x)
      case (Inl r')
      with Inr have c: "cuerpo_bj csp asignacion var valor c0 = Inr (Inl r')" by simp
      then have "case r' of Conflicto S \<Rightarrow> S \<subseteq> K \<and> S \<noteq> {} | Exito a \<Rightarrow> True | FALLO \<Rightarrow> False"
        using hv
        by (auto simp: cuerpo_bj_def split: if_splits sum.splits resultado_bj.splits)
      with c show ?thesis by auto
    next
      case (Inr c1)
      with \<open>cuerpo_bj csp asignacion var valor c0 = Inr x\<close>
      have c: "cuerpo_bj csp asignacion var valor c0 = Inr (Inr c1)" by simp
      have "c0 \<subseteq> K \<Longrightarrow> c1 \<subseteq> K"
        using c hv obtener_variables_conflicto_asignadas [of csp var valor asignacion] k
        by (auto simp: cuerpo_bj_def split: if_splits sum.splits resultado_bj.splits)
      with c IH [where ?c0.0 = c1] show ?thesis by simp
    qed
  qed
qed

lemma backjump_conflicto:
  "backjump csp asignacion = Inr (Conflicto S) \<Longrightarrow>
   S \<subseteq> set (map fst asignacion) \<and> S \<noteq> {}"
proof (induction csp asignacion arbitrary: S rule: backjump.induct)
  case (1 csp asignacion)
  show ?case
  proof (cases "length asignacion = length (variables csp)")
    case True
    with "1.prems" show ?thesis by (simp add: backjump_desplegado)
  next
    case False
    with "1.prems" obtain var valores where
      sel: "seleccionar_variable csp asignacion = Some var" and
      dom: "map_of (dominios csp) var = Some valores" and
      it: "(case iterar (cuerpo_bj csp asignacion var) valores {} of
              Inl e \<Rightarrow> Inl e
            | Inr (Inl r) \<Rightarrow> Inr r
            | Inr (Inr conjunto_var) \<Rightarrow>
                Inr (if conjunto_var \<noteq> {} then Conflicto conjunto_var else FALLO))
           = Inr (Conflicto S)"
      by (auto simp: backjump_desplegado split: option.splits)
    have hi: "\<forall>valor \<in> set valores. \<forall>S. es_consistente csp var valor asignacion \<longrightarrow>
            backjump csp (AList.update var valor asignacion) = Inr (Conflicto S) \<longrightarrow>
            S \<subseteq> insert var (set (map fst asignacion)) \<and> S \<noteq> {}"
    proof (intro ballI allI impI)
      fix valor S
      assume "valor \<in> set valores" "es_consistente csp var valor asignacion"
         "backjump csp (AList.update var valor asignacion) = Inr (Conflicto S)"
      from "1.IH" [OF False sel dom this]
      show "S \<subseteq> insert var (set (map fst asignacion)) \<and> S \<noteq> {}"
        by (simp add: dom_update)
    qed
    show ?thesis
    proof (cases "iterar (cuerpo_bj csp asignacion var) valores {}")
      case (Inl e)
      with it show ?thesis by simp
    next
      case (Inr x)
      show ?thesis
      proof (cases x)
        case (Inl r)
        with Inr it have "r = Conflicto S" by simp
        with iterar_conflicto [OF hi refl, where ?c0.0 = "{}" and r = r] Inr Inl
        show ?thesis by simp
      next
        case (Inr c)
        with \<open>iterar (cuerpo_bj csp asignacion var) valores {} = Inr x\<close> it
        have "c = S" "S \<noteq> {}" by (auto split: if_splits)
        with iterar_conflicto [OF hi refl, where ?c0.0 = "{}" and c = c] Inr
          \<open>iterar (cuerpo_bj csp asignacion var) valores {} = Inr x\<close>
        show ?thesis by simp
      qed
    qed
  qed
qed

text \<open>
  C9. A conflict set returned by \<open>_backjump\<close> for a partial assignment is not empty, holds
  only variables that are keys of that assignment, and so never the variable the frame
  was trying; from the empty assignment no conflict set is returned, and \<open>resolver\<close>
  never hands one to its caller.
\<close>

theorem conjunto_de_conflicto_solo_ancestros:
  "(backjump csp asignacion = Inr (Conflicto S) \<longrightarrow>
      S \<subseteq> set (map fst asignacion) \<and> S \<noteq> {} \<and>
      (\<forall>var. seleccionar_variable csp asignacion = Some var \<longrightarrow> var \<notin> S)) \<and>
   backjump csp [] \<noteq> Inr (Conflicto S) \<and>
   resolver_backjumping csp \<noteq> Inr (Some (Conflicto S))"
proof (intro conjI impI allI)
  assume b: "backjump csp asignacion = Inr (Conflicto S)"
  from backjump_conflicto [OF b] show "S \<subseteq> set (map fst asignacion)" "S \<noteq> {}" by simp_all
  fix var
  assume "seleccionar_variable csp asignacion = Some var"
  then have "\<not> en var asignacion"
    by (auto simp: seleccionar_variable_def find_Some_iff)
  with backjump_conflicto [OF b] show "var \<notin> S" by (auto simp: en_claves)
next
  show n: "backjump csp [] \<noteq> Inr (Conflicto S)"
    using backjump_conflicto [of csp "[]" S] by auto
  then show "resolver_backjumping csp \<noteq> Inr (Some (Conflicto S))"
    by (auto simp: resolver_backjumping_def split: sum.splits if_splits)
qed

text \<open>Two variables with the single value 0 that must differ.\<close>

definition csp_cero :: "int CSP" where
  "csp_cero = \<lparr>variables = [''A'', ''B''],
            dominios = [(''A'', [0]), (''B'', [0])],
            restricciones = [([''A'', ''B''], distintos)],
            vecinos = [(''A'', [''B'']), (''B'', [''A''])],
            arcos = []\<rparr>"

lemma csp_cero_init:
  "CSP_init [''A'', ''B''] [(''A'', [0]), (''B'', [0])] [([''A'', ''B''], distintos)] = Inr csp_cero"
  by (simp add: CSP_init_def calcular_vecinos_def pares_de_def agregar_vecino_def csp_cero_def)

lemma csp_cero_campos [simp]:
  "variables csp_cero = [''A'', ''B'']"
  "dominios csp_cero = [(''A'', [0]), (''B'', [0])]"
  "restricciones csp_cero = [([''A'', ''B''], distintos)]"
  by (simp_all add: csp_cero_def)

lemma conflicto_cero: "obtener_variables_conflicto csp_cero ''B'' 0 [(''A'', 0)] = {''A''}"
  by (simp add: obtener_variables_conflicto_def violada_def aplicable_def valores_de_def en_def)

lemma inconsistente_cero: "\<not> es_consistente csp_cero ''B'' 0 [(''A'', 0)]"
  by (simp add: es_consistente_def violada_def aplicable_def valores_de_def en_def)

lemma backjump_cero_1: "backjump csp_cero [(''A'', 0)] = Inr (Conflicto {''A''})"
  by (subst backjump_desplegado)
    (simp add: seleccionar_variable_def en_def cuerpo_bj_def inconsistente_cero conflicto_cero)

lemma backjump_cero_0: "backjump csp_cero [] = Inr FALLO"
  by (subst backjump_desplegado)
    (simp add: seleccionar_variable_def en_def cuerpo_bj_def
      es_consistente_def violada_def aplicable_def valores_de_def backjump_cero_1)

theorem conjunto_de_conflicto_solo_ancestros_witness:
  "backjump csp_cero [(''A'', 0)] = Inr (Conflicto {''A''}) \<and>
   {''A''} \<subseteq> set (map fst [(''A'', 0::int)]) \<and>
   seleccionar_variable csp_cero [(''A'', 0)] = Some ''B'' \<and>
   ''B'' \<notin> {''A''} \<and>
   resolver_backjumping csp_cero = Inr None"
proof -
  have s: "seleccionar_variable csp_cero [(''A'', 0)] = Some ''B''"
    by (simp add: seleccionar_variable_def en_def)
  from conjunto_de_conflicto_solo_ancestros [of csp_cero "[(''A'', 0)]" "{''A''}"]
    backjump_cero_1 s
  have "{''A''} \<subseteq> set (map fst [(''A'', 0::int)]) \<and> ''B'' \<notin> {''A''}" by blast
  with backjump_cero_1 s backjump_cero_0 show ?thesis
    by (simp add: resolver_backjumping_def)
qed

subsection \<open>Backjumping against plain backtracking\<close>

text \<open>The body of the value loop of \<open>backtrack\<close>, named for the proofs.\<close>

definition cuerpo_bt :: "'v CSP \<Rightarrow> 'v asignacion \<Rightarrow> var \<Rightarrow> 'v \<Rightarrow> py_error + 'v asignacion option" where
  "cuerpo_bt csp asignacion var valor =
     (if es_consistente csp var valor asignacion
      then backtrack csp (AList.update var valor asignacion)
      else Inr None)"

lemma backtrack_desplegado:
  "backtrack csp asignacion =
     (if length asignacion = length (variables csp) then Inr (Some asignacion)
      else
        (case seleccionar_variable_no_asignada csp asignacion of
           None \<Rightarrow> Inl KeyError
         | Some var \<Rightarrow>
             (case map_of (dominios csp) var of
                None \<Rightarrow> Inl KeyError
              | Some valores \<Rightarrow> primer_resultado (cuerpo_bt csp asignacion var) valores)))"
  unfolding cuerpo_bt_def [abs_def] by (rule backtrack.simps)

text \<open>
  Two assignments coincide on a set of variables when they have the same keys in the
  same order and the same values on the set. A result of \<open>backjump\<close> is matched by
  \<open>backtrack\<close> when an exception or a solution is the same for both, and when a conflict
  set (or \<open>"FALLO"\<close>, as the empty set) means that \<open>backtrack\<close> returns \<open>None\<close> from every
  assignment that coincides with the current one on the set.
\<close>

definition coincide :: "'v asignacion \<Rightarrow> 'v asignacion \<Rightarrow> var set \<Rightarrow> bool" where
  "coincide b a S = (map fst b = map fst a \<and> (\<forall>x \<in> S. map_of b x = map_of a x))"

definition simula :: "'v CSP \<Rightarrow> 'v asignacion \<Rightarrow> py_error + 'v resultado_bj \<Rightarrow> bool" where
  "simula csp a r =
     (case r of
        Inl e \<Rightarrow> backtrack csp a = Inl e
      | Inr (Exito s) \<Rightarrow> backtrack csp a = Inr (Some s)
      | Inr (Conflicto S) \<Rightarrow> (\<forall>b. coincide b a S \<longrightarrow> backtrack csp b = Inr None)
      | Inr FALLO \<Rightarrow> (\<forall>b. coincide b a {} \<longrightarrow> backtrack csp b = Inr None))"

lemma coincide_refl: "coincide a a S"
  by (simp add: coincide_def)

lemma coincide_mono: "coincide b a S \<Longrightarrow> T \<subseteq> S \<Longrightarrow> coincide b a T"
  by (auto simp: coincide_def)

lemma coincide_en: "coincide b a S \<Longrightarrow> en x b = en x a"
  by (simp add: coincide_def en_claves)

lemma coincide_update:
  assumes "coincide b a S" and "T \<subseteq> insert var S"
  shows "coincide (AList.update var v b) (AList.update var v a) T"
proof -
  from assms(1) have k: "map fst b = map fst a" by (simp add: coincide_def)
  have "map fst (AList.update var v b) = map fst (AList.update var v a)"
    by (simp add: update_keys k)
  moreover have "map_of (AList.update var v b) x = map_of (AList.update var v a) x"
    if "x \<in> T" for x
    using that assms by (auto simp: update_conv' coincide_def)
  ultimately show ?thesis by (simp add: coincide_def)
qed

lemma coincide_update_salto:
  assumes "coincide b a S" and "var \<notin> S"
  shows "coincide (AList.update var w b) (AList.update var v a) S"
proof -
  from assms(1) have k: "map fst b = map fst a" by (simp add: coincide_def)
  have "map fst (AList.update var w b) = map fst (AList.update var v a)"
    by (simp add: update_keys k)
  moreover have "map_of (AList.update var w b) x = map_of (AList.update var v a) x"
    if "x \<in> S" for x
    using that assms by (auto simp: update_conv' coincide_def)
  ultimately show ?thesis by (simp add: coincide_def)
qed

lemma coincide_seleccion:
  assumes "coincide b a S"
  shows "seleccionar_variable_no_asignada csp b = seleccionar_variable_no_asignada csp a"
    and "length b = length a"
proof -
  have "(\<lambda>v. \<not> en v b) = (\<lambda>v. \<not> en v a)"
    using coincide_en [OF assms] by auto
  then show "seleccionar_variable_no_asignada csp b = seleccionar_variable_no_asignada csp a"
    by (simp add: seleccionar_variable_no_asignada_def)
  from assms have "map fst b = map fst a" by (simp add: coincide_def)
  then have "length (map fst b) = length (map fst a)" by simp
  then show "length b = length a" by simp
qed

lemma inconsistente_coincide:
  assumes n: "\<not> es_consistente csp var v a"
    and c: "coincide b a (obtener_variables_conflicto csp var v a)"
  shows "\<not> es_consistente csp var v b"
proof -
  from n obtain r where r: "r \<in> set (restricciones csp)"
    and vi: "violada var (AList.update var v a) r"
    by (auto simp: es_consistente_def list_ex_iff)
  from vi have ap: "var \<in> set (fst r)" "\<forall>x \<in> set (fst r). en x (AList.update var v a)"
    and fa: "\<not> snd r (valores_de (AList.update var v a) (fst r))"
    by (auto simp: violada_def aplicable_def list_all_iff)
  have e: "\<forall>x \<in> set (fst r). en x (AList.update var v b)"
    using ap(2) coincide_en [OF c] by (simp add: en_update)
  have "map_of (AList.update var v b) x = map_of (AList.update var v a) x"
    if x: "x \<in> set (fst r)" for x
  proof (cases "x = var")
    case True
    then show ?thesis by (simp add: update_conv')
  next
    case False
    with ap(2) x have ex: "en x a" by (auto simp: en_update)
    obtain sc f where rf: "r = (sc, f)" by (cases r)
    have "x \<in> obtener_variables_conflicto csp var v a"
      unfolding obtener_variables_conflicto_def using False x r vi ex rf by auto
    with c False show ?thesis by (simp add: coincide_def update_conv')
  qed
  then have "valores_de (AList.update var v b) (fst r) = valores_de (AList.update var v a) (fst r)"
    by (simp add: valores_de_def)
  with fa ap(1) e have "violada var (AList.update var v b) r"
    by (simp add: violada_def aplicable_def list_all_iff)
  with r show ?thesis by (auto simp: es_consistente_def list_ex_iff)
qed

lemma primer_resultado_None:
  "\<forall>x \<in> set xs. f x = Inr None \<Longrightarrow> primer_resultado f xs = Inr None"
  by (induction xs) auto

definition salto_ok :: "'v CSP \<Rightarrow> 'v asignacion \<Rightarrow> var \<Rightarrow> var set \<Rightarrow> bool" where
  "salto_ok csp a var S =
     (var \<notin> S \<and> (\<forall>b w. coincide b a S \<longrightarrow> backtrack csp (AList.update var w b) = Inr None))"

definition paso_ok ::
  "'v CSP \<Rightarrow> 'v asignacion \<Rightarrow> var \<Rightarrow> 'v \<Rightarrow> var set \<Rightarrow> py_error + ('v resultado_bj + var set) \<Rightarrow> bool" where
  "paso_ok csp a var v c0 R =
     (case R of
        Inl e \<Rightarrow> cuerpo_bt csp a var v = Inl e
      | Inr (Inl (Exito s)) \<Rightarrow> cuerpo_bt csp a var v = Inr (Some s)
      | Inr (Inl (Conflicto S)) \<Rightarrow> salto_ok csp a var S
      | Inr (Inl FALLO) \<Rightarrow> False
      | Inr (Inr c) \<Rightarrow> c0 \<subseteq> c \<and> (\<forall>b. coincide b a c \<longrightarrow> cuerpo_bt csp b var v = Inr None))"

definition bucle_ok ::
  "'v CSP \<Rightarrow> 'v asignacion \<Rightarrow> var \<Rightarrow> 'v list \<Rightarrow> var set \<Rightarrow> py_error + ('v resultado_bj + var set) \<Rightarrow> bool" where
  "bucle_ok csp a var vs c0 R =
     (case R of
        Inl e \<Rightarrow> primer_resultado (cuerpo_bt csp a var) vs = Inl e
      | Inr (Inl (Exito s)) \<Rightarrow> primer_resultado (cuerpo_bt csp a var) vs = Inr (Some s)
      | Inr (Inl (Conflicto S)) \<Rightarrow> salto_ok csp a var S
      | Inr (Inl FALLO) \<Rightarrow> False
      | Inr (Inr c) \<Rightarrow>
          c0 \<subseteq> c \<and> (\<forall>b. coincide b a c \<longrightarrow> primer_resultado (cuerpo_bt csp b var) vs = Inr None))"

lemma paso_simula:
  assumes hi: "es_consistente csp var v a \<Longrightarrow>
               simula csp (AList.update var v a) (backjump csp (AList.update var v a))"
  shows "paso_ok csp a var v c0 (cuerpo_bj csp a var v c0)"
proof (cases "es_consistente csp var v a")
  case False
  have "cuerpo_bt csp b var v = Inr None"
    if "coincide b a (c0 \<union> obtener_variables_conflicto csp var v a)" for b
  proof -
    from that have "coincide b a (obtener_variables_conflicto csp var v a)"
      by (rule coincide_mono) simp
    from inconsistente_coincide [OF False this] show ?thesis by (simp add: cuerpo_bt_def)
  qed
  with False show ?thesis by (simp add: paso_ok_def cuerpo_bj_def)
next
  case True
  note si = hi [OF True]
  show ?thesis
  proof (cases "backjump csp (AList.update var v a)")
    case (Inl e)
    with si True show ?thesis by (simp add: paso_ok_def cuerpo_bj_def cuerpo_bt_def simula_def)
  next
    case (Inr r)
    show ?thesis
    proof (cases r)
      case (Exito s)
      with Inr si True show ?thesis
        by (simp add: paso_ok_def cuerpo_bj_def cuerpo_bt_def simula_def)
    next
      case FALLO
      with Inr si have n: "\<forall>b. coincide b (AList.update var v a) {} \<longrightarrow> backtrack csp b = Inr None"
        by (simp add: simula_def)
      have "cuerpo_bt csp b var v = Inr None" if "coincide b a c0" for b
      proof -
        from coincide_update [OF that, of "{}" var v]
        have "coincide (AList.update var v b) (AList.update var v a) {}" by simp
        with n show ?thesis by (simp add: cuerpo_bt_def)
      qed
      with FALLO Inr True show ?thesis by (simp add: paso_ok_def cuerpo_bj_def)
    next
      case (Conflicto S)
      with Inr si have n: "\<forall>b. coincide b (AList.update var v a) S \<longrightarrow> backtrack csp b = Inr None"
        by (simp add: simula_def)
      show ?thesis
      proof (cases "var \<in> S")
        case False
        have "backtrack csp (AList.update var w b) = Inr None" if "coincide b a S" for b w
          using coincide_update_salto [OF that False] n by simp
        with False have "salto_ok csp a var S" by (simp add: salto_ok_def)
        with Conflicto Inr True False show ?thesis by (simp add: paso_ok_def cuerpo_bj_def)
      next
        case vS: True
        have "cuerpo_bt csp b var v = Inr None" if "coincide b a (c0 \<union> (S - {var}))" for b
        proof -
          have "S \<subseteq> insert var (c0 \<union> (S - {var}))" by auto
          from coincide_update [OF that this] n show ?thesis by (simp add: cuerpo_bt_def)
        qed
        with Conflicto Inr True vS show ?thesis by (simp add: paso_ok_def cuerpo_bj_def)
      qed
    qed
  qed
qed

lemma bucle_simula:
  assumes hi: "\<forall>v \<in> set vs. es_consistente csp var v a \<longrightarrow>
               simula csp (AList.update var v a) (backjump csp (AList.update var v a))"
  shows "bucle_ok csp a var vs c0 (iterar (cuerpo_bj csp a var) vs c0)"
  using hi
proof (induction vs arbitrary: c0)
  case Nil
  then show ?case by (simp add: bucle_ok_def)
next
  case (Cons v vs)
  from Cons.prems have hv: "es_consistente csp var v a \<Longrightarrow>
               simula csp (AList.update var v a) (backjump csp (AList.update var v a))"
    by simp
  from Cons.prems have hvs: "\<forall>v \<in> set vs. es_consistente csp var v a \<longrightarrow>
               simula csp (AList.update var v a) (backjump csp (AList.update var v a))"
    by simp
  note IH = Cons.IH [OF hvs]
  note P = paso_simula [OF hv, of c0]
  show ?case
  proof (cases "cuerpo_bj csp a var v c0")
    case (Inl e)
    with P show ?thesis by (simp add: paso_ok_def bucle_ok_def)
  next
    case (Inr x)
    show ?thesis
    proof (cases x)
      case (Inl r)
      with Inr P show ?thesis
        by (cases r) (simp_all add: paso_ok_def bucle_ok_def)
    next
      case (Inr c1)
      with \<open>cuerpo_bj csp a var v c0 = Inr x\<close>
      have c: "cuerpo_bj csp a var v c0 = Inr (Inr c1)" by simp
      with P have sub: "c0 \<subseteq> c1"
        and nn: "\<forall>b. coincide b a c1 \<longrightarrow> cuerpo_bt csp b var v = Inr None"
        by (simp_all add: paso_ok_def)
      from nn coincide_refl have na: "cuerpo_bt csp a var v = Inr None" by blast
      have it: "iterar (cuerpo_bj csp a var) (v # vs) c0 = iterar (cuerpo_bj csp a var) vs c1"
        using c by simp
      have pa: "primer_resultado (cuerpo_bt csp a var) (v # vs)
              = primer_resultado (cuerpo_bt csp a var) vs"
        using na by simp
      show ?thesis
      proof (cases "iterar (cuerpo_bj csp a var) vs c1")
        case (Inl e)
        with IH [of c1] it pa show ?thesis by (simp add: bucle_ok_def)
      next
        case (Inr y)
        note iy = Inr
        show ?thesis
        proof (cases y)
          case (Inl r)
          with iy IH [of c1] it pa show ?thesis
            by (cases r) (simp_all add: bucle_ok_def)
        next
          case (Inr c)
          with iy IH [of c1] have s2: "c1 \<subseteq> c"
            and n2: "\<forall>b. coincide b a c \<longrightarrow> primer_resultado (cuerpo_bt csp b var) vs = Inr None"
            by (simp_all add: bucle_ok_def)
          have "primer_resultado (cuerpo_bt csp b var) (v # vs) = Inr None"
            if "coincide b a c" for b
          proof -
            from coincide_mono [OF that s2] nn have "cuerpo_bt csp b var v = Inr None" by simp
            with n2 that show ?thesis by simp
          qed
          with sub s2 iy Inr it show ?thesis by (simp add: bucle_ok_def)
        qed
      qed
    qed
  qed
qed

lemma seleccionar_variable_igual:
  "seleccionar_variable csp a = seleccionar_variable_no_asignada csp a"
  by (simp add: seleccionar_variable_def seleccionar_variable_no_asignada_def)

lemma backjump_simula: "simula csp a (backjump csp a)"
proof (induction csp a rule: backjump.induct)
  case (1 csp a)
  show ?case
  proof (cases "length a = length (variables csp)")
    case True
    then show ?thesis by (simp add: backjump_desplegado backtrack_desplegado simula_def)
  next
    case False
    note nl = False
    show ?thesis
    proof (cases "seleccionar_variable csp a")
      case None
      with nl show ?thesis
        by (simp add: backjump_desplegado backtrack_desplegado simula_def
            seleccionar_variable_igual)
    next
      case (Some var)
      note sel = Some
      show ?thesis
      proof (cases "map_of (dominios csp) var")
        case None
        with nl sel show ?thesis
          by (simp add: backjump_desplegado backtrack_desplegado simula_def
              seleccionar_variable_igual)
      next
        case (Some valores)
        note dom = Some
        have hi: "\<forall>v \<in> set valores. es_consistente csp var v a \<longrightarrow>
               simula csp (AList.update var v a) (backjump csp (AList.update var v a))"
          using "1.IH" [OF nl sel dom] by blast
        note B = bucle_simula [OF hi, of "{}"]
        have bj: "backjump csp a =
            (case iterar (cuerpo_bj csp a var) valores {} of
                     Inl e \<Rightarrow> Inl e
                   | Inr (Inl r) \<Rightarrow> Inr r
                   | Inr (Inr conjunto_var) \<Rightarrow>
                       Inr (if conjunto_var \<noteq> {} then Conflicto conjunto_var else FALLO))"
          using nl sel dom by (simp add: backjump_desplegado)
        have bt: "backtrack csp b = primer_resultado (cuerpo_bt csp b var) valores"
          if "coincide b a S" for b S
          using coincide_seleccion(1) [OF that, of csp] coincide_seleccion(2) [OF that] nl sel dom
          by (simp add: backtrack_desplegado seleccionar_variable_igual)
        have bta: "backtrack csp a = primer_resultado (cuerpo_bt csp a var) valores"
          using bt [OF coincide_refl] .
        show ?thesis
        proof (cases "iterar (cuerpo_bj csp a var) valores {}")
          case (Inl e)
          with B bj bta show ?thesis by (simp add: bucle_ok_def simula_def)
        next
          case (Inr x)
          note ix = Inr
          show ?thesis
          proof (cases x)
            case (Inl r)
            show ?thesis
            proof (cases r)
              case (Exito s)
              with Inl ix B bj bta show ?thesis by (simp add: bucle_ok_def simula_def)
            next
              case FALLO
              with Inl ix B show ?thesis by (simp add: bucle_ok_def)
            next
              case (Conflicto S)
              with Inl ix B have so: "salto_ok csp a var S" by (simp add: bucle_ok_def)
              have "backtrack csp b = Inr None" if c: "coincide b a S" for b
              proof -
                have "\<forall>w \<in> set valores. cuerpo_bt csp b var w = Inr None"
                  using so c by (simp add: salto_ok_def cuerpo_bt_def)
                from primer_resultado_None [OF this] bt [OF c] show ?thesis by simp
              qed
              with Conflicto Inl ix bj show ?thesis by (simp add: simula_def)
            qed
          next
            case (Inr c)
            with ix B have n: "\<forall>b. coincide b a c \<longrightarrow>
                primer_resultado (cuerpo_bt csp b var) valores = Inr None"
              by (simp add: bucle_ok_def)
            have "backtrack csp b = Inr None" if "coincide b a c" for b
              using n that bt [OF that] by simp
            with Inr ix bj show ?thesis by (simp add: simula_def)
          qed
        qed
      qed
    qed
  qed
qed

text \<open>
  When the constraint predicates are total functions, backjumping returns the very
  assignment that plain backtracking returns, and none when plain backtracking returns
  none.
\<close>

lemma backjumping_misma_solucion:
  "resolver_backjumping csp = Inr (Some (Exito a)) \<longleftrightarrow> resolver csp = Inr (Some a)"
proof -
  note s = backjump_simula [of csp "[]"]
  show ?thesis
  proof (cases "backjump csp []")
    case (Inl e)
    with s show ?thesis by (simp add: resolver_backjumping_def resolver_def simula_def)
  next
    case (Inr r)
    show ?thesis
    proof (cases r)
      case (Exito x)
      with Inr s show ?thesis by (simp add: resolver_backjumping_def resolver_def simula_def)
    next
      case (Conflicto S)
      with Inr s have "\<forall>b. coincide b [] S \<longrightarrow> backtrack csp b = Inr None"
        by (simp add: simula_def)
      then have "backtrack csp [] = Inr None" using coincide_refl by blast
      with Conflicto Inr show ?thesis by (simp add: resolver_backjumping_def resolver_def)
    next
      case FALLO
      with Inr s have "\<forall>b. coincide b [] {} \<longrightarrow> backtrack csp b = Inr None"
        by (simp add: simula_def)
      then have "backtrack csp [] = Inr None" using coincide_refl by blast
      with FALLO Inr show ?thesis by (simp add: resolver_backjumping_def resolver_def)
    qed
  qed
qed

section \<open>Soundness of AC-3\<close>















text \<open>\<open>A\<close> fixed to 0 and \<open>B\<close> in \<open>[0, 1]\<close>, different: AC-3 removes 0 from \<open>B\<close>.\<close>

definition csp_fijo :: "int CSP" where
  "csp_fijo = \<lparr>variables = [''A'', ''B''],
            dominios = [(''A'', [0]), (''B'', [0, 1])],
            restricciones = [([''A'', ''B''], distintos)],
            vecinos = [(''A'', [''B'']), (''B'', [''A''])],
            arcos = [(''A'', ''B''), (''B'', ''A'')]\<rparr>"

lemma csp_fijo_init:
  "CSP_init_arcos [''A'', ''B''] [(''A'', [0]), (''B'', [0, 1])] [([''A'', ''B''], distintos)]
   = Inr csp_fijo"
  by (simp add: CSP_init_arcos_def calcular_vecinos_def pares_de_def agregar_vecino_def
      csp_fijo_def)

lemma csp_fijo_campos [simp]:
  "variables csp_fijo = [''A'', ''B'']"
  "dominios csp_fijo = [(''A'', [0]), (''B'', [0, 1])]"
  "restricciones csp_fijo = [([''A'', ''B''], distintos)]"
  "vecinos csp_fijo = [(''A'', [''B'']), (''B'', [''A''])]"
  "arcos csp_fijo = [(''A'', ''B''), (''B'', ''A'')]"
  by (simp_all add: csp_fijo_def)


lemma ecb_fijo [simp]:
  "es_consistente_binaria csp_fijo ''B'' b ''A'' a = (a \<noteq> b)"
  "es_consistente_binaria csp_fijo ''A'' a ''B'' b = (a \<noteq> b)"
  by (simp_all add: es_consistente_binaria_def)





section \<open>Failure values of the solvers\<close>

text \<open>
  An assignment (a dictionary) is a solution when its keys are the declared variables,
  every value is in the domain of its variable and every constraint is true of the
  values of its scope. An instance is well formed when no variable is declared twice,
  every declared variable has a domain that is not empty, and every constraint has a
  scope that is not empty and holds declared variables only.
\<close>

definition satisface :: "'v CSP \<Rightarrow> 'v asignacion \<Rightarrow> bool" where
  "satisface csp s = list_all (\<lambda>r. snd r (valores_de s (fst r))) (restricciones csp)"

definition en_dominio :: "'v CSP \<Rightarrow> 'v asignacion \<Rightarrow> bool" where
  "en_dominio csp s =
     (\<forall>x v. map_of s x = Some v \<longrightarrow> (\<exists>d. map_of (dominios csp) x = Some d \<and> v \<in> set d))"

definition es_solucion_asignacion :: "'v CSP \<Rightarrow> 'v asignacion \<Rightarrow> bool" where
  "es_solucion_asignacion csp s =
     (set (map fst s) = set (variables csp) \<and> en_dominio csp s \<and> satisface csp s)"

definition bien_formado :: "'v CSP \<Rightarrow> bool" where
  "bien_formado csp =
     (distinct (variables csp) \<and>
      list_all (\<lambda>x. case map_of (dominios csp) x of None \<Rightarrow> False | Some d \<Rightarrow> d \<noteq> [])
        (variables csp) \<and>
      list_all (\<lambda>r. fst r \<noteq> [] \<and> set (fst r) \<subseteq> set (variables csp)) (restricciones csp))"

text \<open>
  What plain backtracking maintains of its partial assignment: distinct declared keys,
  values of the domains, and every constraint whose scope is assigned is true.
\<close>

definition parcial :: "'v CSP \<Rightarrow> 'v asignacion \<Rightarrow> bool" where
  "parcial csp a =
     (distinct (map fst a) \<and> set (map fst a) \<subseteq> set (variables csp) \<and> en_dominio csp a \<and>
      (\<forall>r \<in> set (restricciones csp). fst r \<noteq> [] \<longrightarrow> set (fst r) \<subseteq> set (map fst a) \<longrightarrow>
           snd r (valores_de a (fst r))))"

lemma primer_resultado_Some:
  "primer_resultado f xs = Inr (Some s) \<Longrightarrow> \<exists>x \<in> set xs. f x = Inr (Some s)"
  by (induction xs) (auto split: sum.splits option.splits)

lemma primer_resultado_Inl:
  "primer_resultado f xs = Inl e \<Longrightarrow> \<exists>x \<in> set xs. f x = Inl e"
  by (induction xs) (auto split: sum.splits option.splits)

lemma valores_de_update:
  "var \<notin> set scope \<Longrightarrow> valores_de (AList.update var v a) scope = valores_de a scope"
  by (auto simp: valores_de_def update_conv')

lemma parcial_update:
  assumes p: "parcial csp a"
    and bf: "bien_formado csp"
    and sel: "seleccionar_variable_no_asignada csp a = Some var"
    and dom: "map_of (dominios csp) var = Some d" and v: "v \<in> set d"
    and con: "es_consistente csp var v a"
  shows "parcial csp (AList.update var v a)"
proof -
  from seleccionar_variable_no_asignada_ok [OF sel]
  have vv: "var \<in> set (variables csp)" and nv: "var \<notin> set (map fst a)"
    by (simp_all add: en_claves)
  from p have di: "distinct (map fst a)" and su: "set (map fst a) \<subseteq> set (variables csp)"
    and ed: "en_dominio csp a"
    and rs: "\<forall>r \<in> set (restricciones csp). fst r \<noteq> [] \<longrightarrow> set (fst r) \<subseteq> set (map fst a) \<longrightarrow>
           snd r (valores_de a (fst r))"
    by (simp_all add: parcial_def)
  have 1: "distinct (map fst (AList.update var v a))" using di by (simp add: distinct_update)
  have 2: "set (map fst (AList.update var v a)) \<subseteq> set (variables csp)"
    using su vv by (auto simp: dom_update)
  have 3: "en_dominio csp (AList.update var v a)"
    using ed dom v by (auto simp: en_dominio_def update_conv')
  have 4: "snd r (valores_de (AList.update var v a) (fst r))"
    if r: "r \<in> set (restricciones csp)" and ne: "fst r \<noteq> []"
      and s: "set (fst r) \<subseteq> set (map fst (AList.update var v a))" for r
  proof (cases "var \<in> set (fst r)")
    case True
    from s have "list_all (\<lambda>x. en x (AList.update var v a)) (fst r)"
      by (auto simp: list_all_iff en_claves)
    with True have "aplicable var (AList.update var v a) r" by (simp add: aplicable_def)
    with con r show ?thesis by (auto simp: es_consistente_def list_ex_iff violada_def)
  next
    case False
    with s have "set (fst r) \<subseteq> set (map fst a)" by (auto simp: dom_update)
    with rs r ne have "snd r (valores_de a (fst r))" by blast
    with False show ?thesis by (simp add: valores_de_update)
  qed
  from 1 2 3 4 show ?thesis by (simp add: parcial_def)
qed

lemma parcial_completa:
  assumes p: "parcial csp a" and bf: "bien_formado csp"
    and l: "length a = length (variables csp)"
  shows "es_solucion_asignacion csp a"
proof -
  from p have di: "distinct (map fst a)" and su: "set (map fst a) \<subseteq> set (variables csp)"
    and ed: "en_dominio csp a"
    and rs: "\<forall>r \<in> set (restricciones csp). fst r \<noteq> [] \<longrightarrow> set (fst r) \<subseteq> set (map fst a) \<longrightarrow>
           snd r (valores_de a (fst r))"
    by (simp_all add: parcial_def)
  from bf have dv: "distinct (variables csp)"
    and sc: "\<forall>r \<in> set (restricciones csp). fst r \<noteq> [] \<and> set (fst r) \<subseteq> set (variables csp)"
    by (auto simp: bien_formado_def list_all_iff)
  have "card (set (map fst a)) = length (map fst a)" using di by (rule distinct_card)
  moreover have "card (set (variables csp)) = length (variables csp)" using dv by (rule distinct_card)
  ultimately have "card (set (map fst a)) = card (set (variables csp))"
    using l by simp
  with su have eq: "set (map fst a) = set (variables csp)"
    by (simp add: card_subset_eq)
  have "snd r (valores_de a (fst r))" if "r \<in> set (restricciones csp)" for r
    using that rs sc eq by blast
  then have "satisface csp a" by (simp add: satisface_def list_all_iff)
  with eq ed show ?thesis by (simp add: es_solucion_asignacion_def)
qed

lemma backtrack_correcto:
  assumes "bien_formado csp" and "parcial csp a"
  shows "backtrack csp a \<noteq> Inl e \<and>
         (backtrack csp a = Inr (Some s) \<longrightarrow> es_solucion_asignacion csp s)"
  using assms
proof (induction csp a arbitrary: e s rule: backtrack.induct)
  case (1 csp a)
  note bf = "1.prems"(1) and p = "1.prems"(2)
  show ?case
  proof (cases "length a = length (variables csp)")
    case True
    then have "backtrack csp a = Inr (Some a)" by (subst backtrack.simps) simp
    with parcial_completa [OF p bf True] show ?thesis by auto
  next
    case False
    from p have di: "distinct (map fst a)" and su: "set (map fst a) \<subseteq> set (variables csp)"
      by (simp_all add: parcial_def)
    from bf have dv: "distinct (variables csp)" by (simp add: bien_formado_def)
    have "\<exists>x \<in> set (variables csp). \<not> en x a"
    proof (rule ccontr)
      assume "\<not> (\<exists>x \<in> set (variables csp). \<not> en x a)"
      then have "set (variables csp) \<subseteq> set (map fst a)" by (auto simp: en_claves)
      with su have "set (map fst a) = set (variables csp)" by auto
      then have "card (set (map fst a)) = card (set (variables csp))" by simp
      moreover have "card (set (map fst a)) = length (map fst a)" using di by (rule distinct_card)
      moreover have "card (set (variables csp)) = length (variables csp)"
        using dv by (rule distinct_card)
      ultimately have "length a = length (variables csp)" by simp
      with False show False by simp
    qed
    then have "find (\<lambda>v. \<not> en v a) (variables csp) \<noteq> None"
      unfolding find_None_iff by blast
    then obtain var where sel: "seleccionar_variable_no_asignada csp a = Some var"
      by (auto simp: seleccionar_variable_no_asignada_def)
    from seleccionar_variable_no_asignada_ok [OF sel] bf
    obtain d where dom: "map_of (dominios csp) var = Some d"
      by (auto simp: bien_formado_def list_all_iff split: option.splits)
    have bt: "backtrack csp a =
        primer_resultado
          (\<lambda>valor. if es_consistente csp var valor a
                    then backtrack csp (AList.update var valor a) else Inr None) d"
      using False sel dom by (subst backtrack.simps) simp
    have paso: "backtrack csp (AList.update var v a) \<noteq> Inl e' \<and>
         (backtrack csp (AList.update var v a) = Inr (Some s') \<longrightarrow> es_solucion_asignacion csp s')"
      if "v \<in> set d" "es_consistente csp var v a" for v e' s'
      using "1.IH" [OF False sel dom that bf parcial_update [OF p bf sel dom that]] .
    let ?f = "\<lambda>valor. if es_consistente csp var valor a
                    then backtrack csp (AList.update var valor a) else Inr None"
    have "backtrack csp a \<noteq> Inl e"
    proof
      assume "backtrack csp a = Inl e"
      with bt have "primer_resultado ?f d = Inl e" by simp
      from primer_resultado_Inl [OF this] obtain v where v: "v \<in> set d" "?f v = Inl e"
        by blast
      then have c: "es_consistente csp var v a" by (auto split: if_splits)
      with v have "backtrack csp (AList.update var v a) = Inl e" by simp
      with paso [OF v(1) c, of e] show False by simp
    qed
    moreover have "es_solucion_asignacion csp s" if "backtrack csp a = Inr (Some s)"
    proof -
      from that bt have "primer_resultado ?f d = Inr (Some s)" by simp
      from primer_resultado_Some [OF this] obtain v where v: "v \<in> set d" "?f v = Inr (Some s)"
        by blast
      then have c: "es_consistente csp var v a" by (auto split: if_splits)
      with v have "backtrack csp (AList.update var v a) = Inr (Some s)" by simp
      with paso [OF v(1) c, of _ s] show ?thesis by simp
    qed
    ultimately show ?thesis by simp
  qed
qed

lemma parcial_vacia: "parcial csp []"
  by (simp add: parcial_def en_dominio_def)


















subsection \<open>What the systematic solvers return\<close>

text \<open>
  On a well-formed instance \<open>SolucionadorBacktracking.resolver\<close> raises nothing, and an
  assignment it returns is a solution.
\<close>

theorem backtracking_devuelve_solucion:
  assumes "bien_formado csp"
  shows "resolver csp \<noteq> Inl e \<and> (resolver csp = Inr (Some s) \<longrightarrow> es_solucion_asignacion csp s)"
  using backtrack_correcto [OF assms parcial_vacia] by (simp add: resolver_def)

lemma csp_ab_arbol_campos [simp]:
  "variables csp_ab_arbol = [''A'', ''B'']"
  "dominios csp_ab_arbol = [(''A'', [0, 1]), (''B'', [0, 1])]"
  "restricciones csp_ab_arbol = [([''A'', ''B''], distintos)]"
  by (simp_all add: csp_ab_arbol_def)

lemma backtrack_ab_2:
  "backtrack csp_ab_arbol [(''A'', 0), (''B'', 1)] = Inr (Some [(''A'', 0), (''B'', 1)])"
  by (subst backtrack.simps) simp

lemma backtrack_ab_1: "backtrack csp_ab_arbol [(''A'', 0)] = Inr (Some [(''A'', 0), (''B'', 1)])"
  by (subst backtrack.simps)
    (simp add: seleccionar_variable_no_asignada_def en_def es_consistente_def
      violada_def aplicable_def valores_de_def backtrack_ab_2)

lemma backtrack_ab_0: "backtrack csp_ab_arbol [] = Inr (Some [(''A'', 0), (''B'', 1)])"
  by (subst backtrack.simps)
    (simp add: seleccionar_variable_no_asignada_def en_def es_consistente_def
      violada_def aplicable_def valores_de_def backtrack_ab_1)

theorem backtracking_devuelve_solucion_witness:
  "bien_formado csp_ab_arbol \<and>
   resolver csp_ab_arbol = Inr (Some [(''A'', 0), (''B'', 1)]) \<and>
   es_solucion_asignacion csp_ab_arbol [(''A'', 0), (''B'', 1)]"
proof -
  have b: "bien_formado csp_ab_arbol" by (simp add: bien_formado_def)
  have r: "resolver csp_ab_arbol = Inr (Some [(''A'', 0), (''B'', 1)])"
    by (simp add: resolver_def backtrack_ab_0)
  from backtracking_devuelve_solucion [OF b, of _ "[(''A'', 0), (''B'', 1)]"] r b
  show ?thesis by simp
qed

section \<open>Constraint predicates that raise\<close>

text \<open>
  A constraint function is Python code and a call of it may raise: \<open>b % c == 0\<close> raises
  \<open>ZeroDivisionError\<close> at \<open>c = 0\<close>, and a function called with a tuple of the wrong length
  raises \<open>TypeError\<close>. The solvers catch nothing, so the exception leaves \<open>resolver\<close>.
  This section models the plain backtracking solver and the backjumping solver over
  such predicates: a predicate returns \<open>Inl\<close> of the exception or \<open>Inr\<close> of its truth value,
  and the loops over \<open>self.restricciones.items()\<close> call the predicates in the order of
  the dictionary. The record has the fields that the two solvers read.
\<close>

type_synonym 'v restriccion_exc = "var list \<times> ('v list \<Rightarrow> py_error + bool)"

record 'v CSP_exc =
  variables_exc :: "var list"
  dominios_exc :: "'v dominios"
  restricciones_exc :: "'v restriccion_exc list"

text \<open>
  \<open>CSP.es_consistente\<close>: the loop returns \<open>False\<close> at the first constraint that applies and
  is violated, without calling the predicates after it.
\<close>

fun es_consistente_bucle ::
  "var \<Rightarrow> 'v asignacion \<Rightarrow> 'v restriccion_exc list \<Rightarrow> py_error + bool" where
  "es_consistente_bucle var asignacion_temp [] = Inr True"
| "es_consistente_bucle var asignacion_temp ((variables_restriccion, funcion_restriccion) # rs) =
     (if var \<in> set variables_restriccion \<and>
         list_all (\<lambda>v. en v asignacion_temp) variables_restriccion
      then
        (case funcion_restriccion (valores_de asignacion_temp variables_restriccion) of
           Inl e \<Rightarrow> Inl e
         | Inr b \<Rightarrow> if \<not> b then Inr False else es_consistente_bucle var asignacion_temp rs)
      else es_consistente_bucle var asignacion_temp rs)"

definition es_consistente_exc ::
  "'v CSP_exc \<Rightarrow> var \<Rightarrow> 'v \<Rightarrow> 'v asignacion \<Rightarrow> py_error + bool" where
  "es_consistente_exc csp var valor asignacion =
     es_consistente_bucle var (AList.update var valor asignacion) (restricciones_exc csp)"

text \<open>
  \<open>CSP.obtener_variables_conflicto\<close>: the loop calls the predicate of every constraint that
  applies, and collects in \<open>conflictos\<close> the other assigned variables of the violated ones.
\<close>

fun obtener_variables_conflicto_bucle ::
  "var \<Rightarrow> 'v asignacion \<Rightarrow> 'v asignacion \<Rightarrow> 'v restriccion_exc list \<Rightarrow> var set \<Rightarrow>
   py_error + var set" where
  "obtener_variables_conflicto_bucle var asignacion asignacion_temp [] conflictos = Inr conflictos"
| "obtener_variables_conflicto_bucle var asignacion asignacion_temp
     ((variables_restriccion, funcion_restriccion) # rs) conflictos =
     (if var \<in> set variables_restriccion \<and>
         list_all (\<lambda>v. en v asignacion_temp) variables_restriccion
      then
        (case funcion_restriccion (valores_de asignacion_temp variables_restriccion) of
           Inl e \<Rightarrow> Inl e
         | Inr b \<Rightarrow>
             obtener_variables_conflicto_bucle var asignacion asignacion_temp rs
               (if \<not> b
                then conflictos \<union>
                     set (filter (\<lambda>v. v \<noteq> var \<and> en v asignacion) variables_restriccion)
                else conflictos))
      else obtener_variables_conflicto_bucle var asignacion asignacion_temp rs conflictos)"

definition obtener_variables_conflicto_exc ::
  "'v CSP_exc \<Rightarrow> var \<Rightarrow> 'v \<Rightarrow> 'v asignacion \<Rightarrow> py_error + var set" where
  "obtener_variables_conflicto_exc csp var valor asignacion =
     obtener_variables_conflicto_bucle var asignacion (AList.update var valor asignacion)
       (restricciones_exc csp) {}"

text \<open>
  The CSP of the earlier sections that answers as this one does wherever its predicates
  return; it also measures the recursion of the solvers.
\<close>

definition respuesta :: "py_error + bool \<Rightarrow> bool" where
  "respuesta x = (case x of Inl e \<Rightarrow> False | Inr b \<Rightarrow> b)"

definition totalizar :: "'v CSP_exc \<Rightarrow> 'v CSP" where
  "totalizar csp =
     \<lparr>variables = variables_exc csp,
      dominios = dominios_exc csp,
      restricciones = map (\<lambda>r. (fst r, \<lambda>valores. respuesta (snd r valores))) (restricciones_exc csp),
      vecinos = [],
      arcos = []\<rparr>"

lemma totalizar_campos [simp]:
  "variables (totalizar csp) = variables_exc csp"
  "dominios (totalizar csp) = dominios_exc csp"
  by (simp_all add: totalizar_def)

text \<open>
  \<open>SolucionadorBacktracking._backtrack\<close> and \<open>SolucionadorBackjumping._backjump\<close> as in
  the earlier sections, with the exception of a predicate leaving the value loop.
\<close>

definition seleccionar_variable_no_asignada_exc :: "'v CSP_exc \<Rightarrow> 'v asignacion \<Rightarrow> var option" where
  "seleccionar_variable_no_asignada_exc csp asignacion =
     find (\<lambda>v. \<not> en v asignacion) (variables_exc csp)"

definition seleccionar_variable_exc :: "'v CSP_exc \<Rightarrow> 'v asignacion \<Rightarrow> var option" where
  "seleccionar_variable_exc csp asignacion = find (\<lambda>v. \<not> en v asignacion) (variables_exc csp)"

function backtrack_exc :: "'v CSP_exc \<Rightarrow> 'v asignacion \<Rightarrow> py_error + 'v asignacion option" where
  "backtrack_exc csp asignacion =
     (if length asignacion = length (variables_exc csp) then Inr (Some asignacion)
      else
        (case seleccionar_variable_no_asignada_exc csp asignacion of
           None \<Rightarrow> Inl KeyError
         | Some var \<Rightarrow>
             (case map_of (dominios_exc csp) var of
                None \<Rightarrow> Inl KeyError
              | Some valores \<Rightarrow>
                  primer_resultado
                    (\<lambda>valor.
                       case es_consistente_exc csp var valor asignacion of
                         Inl e \<Rightarrow> Inl e
                       | Inr consistente \<Rightarrow>
                           if consistente
                           then backtrack_exc csp (AList.update var valor asignacion)
                           else Inr None)
                    valores)))"
  by pat_completeness auto
termination
proof (relation "measure (\<lambda>(csp, asignacion). no_asignadas (totalizar csp) asignacion)")
  show "wf (measure (\<lambda>(csp, asignacion). no_asignadas (totalizar csp) asignacion))" by simp
next
  fix csp :: "'v CSP_exc" and asignacion var valores valor
  assume "seleccionar_variable_no_asignada_exc csp asignacion = Some var"
  then have "var \<in> set (variables (totalizar csp)) \<and> \<not> en var asignacion"
    by (auto simp: seleccionar_variable_no_asignada_exc_def find_Some_iff)
  then show "((csp, AList.update var valor asignacion), (csp, asignacion))
        \<in> measure (\<lambda>(csp, asignacion). no_asignadas (totalizar csp) asignacion)"
    by (simp add: no_asignadas_update)
qed

declare backtrack_exc.simps [simp del]

definition resolver_exc :: "'v CSP_exc \<Rightarrow> py_error + 'v asignacion option" where
  "resolver_exc csp = backtrack_exc csp []"

function backjump_exc :: "'v CSP_exc \<Rightarrow> 'v asignacion \<Rightarrow> py_error + 'v resultado_bj" where
  "backjump_exc csp asignacion =
     (if length asignacion = length (variables_exc csp) then Inr (Exito asignacion)
      else
        (case seleccionar_variable_exc csp asignacion of
           None \<Rightarrow> Inl KeyError
         | Some var \<Rightarrow>
             (case map_of (dominios_exc csp) var of
                None \<Rightarrow> Inl KeyError
              | Some valores \<Rightarrow>
                  (case iterar
                          (\<lambda>valor conjunto_var.
                             case es_consistente_exc csp var valor asignacion of
                               Inl e \<Rightarrow> Inl e
                             | Inr consistente \<Rightarrow>
                                 if consistente then
                                   (case backjump_exc csp (AList.update var valor asignacion) of
                                      Inl e \<Rightarrow> Inl e
                                    | Inr (Exito a) \<Rightarrow> Inr (Inl (Exito a))
                                    | Inr (Conflicto conjunto_conf) \<Rightarrow>
                                        if var \<notin> conjunto_conf
                                        then Inr (Inl (Conflicto conjunto_conf))
                                        else Inr (Inr (conjunto_var \<union> (conjunto_conf - {var})))
                                    | Inr FALLO \<Rightarrow> Inr (Inr conjunto_var))
                                 else
                                   (case obtener_variables_conflicto_exc csp var valor asignacion of
                                      Inl e \<Rightarrow> Inl e
                                    | Inr conflictos \<Rightarrow> Inr (Inr (conjunto_var \<union> conflictos))))
                          valores {} of
                     Inl e \<Rightarrow> Inl e
                   | Inr (Inl r) \<Rightarrow> Inr r
                   | Inr (Inr conjunto_var) \<Rightarrow>
                       Inr (if conjunto_var \<noteq> {} then Conflicto conjunto_var else FALLO)))))"
  by pat_completeness auto
termination
proof (relation "measure (\<lambda>(csp, asignacion). no_asignadas (totalizar csp) asignacion)")
  show "wf (measure (\<lambda>(csp, asignacion). no_asignadas (totalizar csp) asignacion))" by simp
next
  fix csp :: "'v CSP_exc" and asignacion var valores valor
  assume "seleccionar_variable_exc csp asignacion = Some var"
  then have "var \<in> set (variables (totalizar csp)) \<and> \<not> en var asignacion"
    by (auto simp: seleccionar_variable_exc_def find_Some_iff)
  then show "((csp, AList.update var valor asignacion), (csp, asignacion))
        \<in> measure (\<lambda>(csp, asignacion). no_asignadas (totalizar csp) asignacion)"
    by (simp add: no_asignadas_update)
qed

declare backjump_exc.simps [simp del]

definition resolver_backjumping_exc :: "'v CSP_exc \<Rightarrow> py_error + 'v resultado_bj option" where
  "resolver_backjumping_exc csp =
     (case backjump_exc csp [] of
        Inl e \<Rightarrow> Inl e
      | Inr resultado \<Rightarrow> Inr (if resultado \<noteq> FALLO then Some resultado else None))"

definition cuerpo_bt_exc ::
  "'v CSP_exc \<Rightarrow> 'v asignacion \<Rightarrow> var \<Rightarrow> 'v \<Rightarrow> py_error + 'v asignacion option" where
  "cuerpo_bt_exc csp asignacion var valor =
     (case es_consistente_exc csp var valor asignacion of
        Inl e \<Rightarrow> Inl e
      | Inr consistente \<Rightarrow>
          if consistente
          then backtrack_exc csp (AList.update var valor asignacion)
          else Inr None)"

lemma backtrack_exc_desplegado:
  "backtrack_exc csp asignacion =
     (if length asignacion = length (variables_exc csp) then Inr (Some asignacion)
      else
        (case seleccionar_variable_no_asignada_exc csp asignacion of
           None \<Rightarrow> Inl KeyError
         | Some var \<Rightarrow>
             (case map_of (dominios_exc csp) var of
                None \<Rightarrow> Inl KeyError
              | Some valores \<Rightarrow> primer_resultado (cuerpo_bt_exc csp asignacion var) valores)))"
  unfolding cuerpo_bt_exc_def [abs_def] by (rule backtrack_exc.simps)

definition cuerpo_bj_exc ::
  "'v CSP_exc \<Rightarrow> 'v asignacion \<Rightarrow> var \<Rightarrow> 'v \<Rightarrow> var set \<Rightarrow>
   py_error + ('v resultado_bj + var set)" where
  "cuerpo_bj_exc csp asignacion var valor conjunto_var =
     (case es_consistente_exc csp var valor asignacion of
        Inl e \<Rightarrow> Inl e
      | Inr consistente \<Rightarrow>
          if consistente then
            (case backjump_exc csp (AList.update var valor asignacion) of
               Inl e \<Rightarrow> Inl e
             | Inr (Exito a) \<Rightarrow> Inr (Inl (Exito a))
             | Inr (Conflicto conjunto_conf) \<Rightarrow>
                 if var \<notin> conjunto_conf
                 then Inr (Inl (Conflicto conjunto_conf))
                 else Inr (Inr (conjunto_var \<union> (conjunto_conf - {var})))
             | Inr FALLO \<Rightarrow> Inr (Inr conjunto_var))
          else
            (case obtener_variables_conflicto_exc csp var valor asignacion of
               Inl e \<Rightarrow> Inl e
             | Inr conflictos \<Rightarrow> Inr (Inr (conjunto_var \<union> conflictos))))"

lemma backjump_exc_desplegado:
  "backjump_exc csp asignacion =
     (if length asignacion = length (variables_exc csp) then Inr (Exito asignacion)
      else
        (case seleccionar_variable_exc csp asignacion of
           None \<Rightarrow> Inl KeyError
         | Some var \<Rightarrow>
             (case map_of (dominios_exc csp) var of
                None \<Rightarrow> Inl KeyError
              | Some valores \<Rightarrow>
                  (case iterar (cuerpo_bj_exc csp asignacion var) valores {} of
                     Inl e \<Rightarrow> Inl e
                   | Inr (Inl r) \<Rightarrow> Inr r
                   | Inr (Inr conjunto_var) \<Rightarrow>
                       Inr (if conjunto_var \<noteq> {} then Conflicto conjunto_var else FALLO)))))"
  unfolding cuerpo_bj_exc_def [abs_def] by (rule backjump_exc.simps)

text \<open>
  No predicate raises on the calls that a search can make: on the values of its scope
  under any assignment that gives each variable a value of its domain.
\<close>

definition en_dominios :: "'v CSP_exc \<Rightarrow> 'v asignacion \<Rightarrow> bool" where
  "en_dominios csp asignacion =
     (\<forall>v x. map_of asignacion v = Some x \<longrightarrow>
            (\<exists>d. map_of (dominios_exc csp) v = Some d \<and> x \<in> set d))"

definition no_lanza :: "'v CSP_exc \<Rightarrow> bool" where
  "no_lanza csp =
     (\<forall>r \<in> set (restricciones_exc csp). \<forall>asignacion.
        en_dominios csp asignacion \<longrightarrow> list_all (\<lambda>v. en v asignacion) (fst r) \<longrightarrow>
        (\<exists>b. snd r (valores_de asignacion (fst r)) = Inr b))"

text \<open>
  Three variables, \<open>A \<noteq> C\<close> and \<open>B % C == 0\<close>, in this order in the dictionary. In
  \<open>csp_div\<close> the domain of \<open>C\<close> contains 0; in \<open>csp_div_ok\<close> it does not.
\<close>

fun distintos_exc :: "int list \<Rightarrow> py_error + bool" where
  "distintos_exc [a, c] = Inr (a \<noteq> c)"
| "distintos_exc valores = Inl TypeError"

fun divisible :: "int list \<Rightarrow> py_error + bool" where
  "divisible [b, c] = (if c = 0 then Inl ZeroDivisionError else Inr (b mod c = 0))"
| "divisible valores = Inl TypeError"

definition csp_div :: "int CSP_exc" where
  "csp_div = \<lparr>variables_exc = [''A'', ''B'', ''C''],
             dominios_exc = [(''A'', [0]), (''B'', [0]), (''C'', [0, 1])],
             restricciones_exc = [([''A'', ''C''], distintos_exc), ([''B'', ''C''], divisible)]\<rparr>"

definition csp_div_ok :: "int CSP_exc" where
  "csp_div_ok = \<lparr>variables_exc = [''A'', ''B'', ''C''],
                dominios_exc = [(''A'', [1]), (''B'', [2]), (''C'', [1, 2])],
                restricciones_exc = [([''A'', ''C''], distintos_exc), ([''B'', ''C''], divisible)]\<rparr>"

text \<open>The CSP of the earlier sections as one whose predicates always return.\<close>

definition elevar :: "'v CSP \<Rightarrow> 'v CSP_exc" where
  "elevar csp =
     \<lparr>variables_exc = variables csp,
      dominios_exc = dominios csp,
      restricciones_exc = map (\<lambda>r. (fst r, \<lambda>valores. Inr (snd r valores))) (restricciones csp)\<rparr>"

subsection \<open>Agreement with the solvers over total predicates\<close>

text \<open>
  A result over predicates that may raise agrees with one over total predicates when it
  is the same whenever the former is a value, and the same altogether under the
  condition \<open>nl\<close>.
\<close>

definition acorde :: "bool \<Rightarrow> py_error + 'a \<Rightarrow> py_error + 'a \<Rightarrow> bool" where
  "acorde nl x y = ((\<forall>r. x = Inr r \<longrightarrow> y = Inr r) \<and> (nl \<longrightarrow> x = y))"

definition total_de :: "'v restriccion_exc \<Rightarrow> 'v restriccion" where
  "total_de r = (fst r, \<lambda>valores. respuesta (snd r valores))"

lemma es_consistente_bucle_Inr:
  "es_consistente_bucle var temp rs = Inr b \<Longrightarrow>
   b = (\<not> list_ex (violada var temp) (map total_de rs))"
proof (induction rs)
  case Nil
  then show ?case by simp
next
  case (Cons r rs)
  obtain vr f where r: "r = (vr, f)" by (cases r)
  show ?case
  proof (cases "var \<in> set vr \<and> list_all (\<lambda>v. en v temp) vr")
    case False
    then have "\<not> violada var temp (total_de r)"
      by (auto simp: violada_def aplicable_def total_de_def r)
    moreover from False Cons.prems have "es_consistente_bucle var temp rs = Inr b"
      by (auto simp: r split: if_splits)
    ultimately show ?thesis using Cons.IH by simp
  next
    case True
    then have ap: "aplicable var temp (total_de r)"
      by (simp add: aplicable_def total_de_def r)
    show ?thesis
    proof (cases "f (valores_de temp vr)")
      case (Inl e)
      with True Cons.prems show ?thesis by (simp add: r)
    next
      case (Inr c)
      show ?thesis
      proof (cases c)
        case True
        with Inr have "\<not> violada var temp (total_de r)"
          by (simp add: violada_def total_de_def r respuesta_def)
        moreover from True Inr \<open>var \<in> set vr \<and> list_all (\<lambda>v. en v temp) vr\<close> Cons.prems
        have "es_consistente_bucle var temp rs = Inr b"
          by (simp add: r)
        ultimately show ?thesis using Cons.IH by simp
      next
        case False
        with Inr ap have "violada var temp (total_de r)"
          by (simp add: violada_def total_de_def r respuesta_def)
        moreover from False Inr \<open>var \<in> set vr \<and> list_all (\<lambda>v. en v temp) vr\<close> Cons.prems
        have "b = False" by (simp add: r)
        ultimately show ?thesis by simp
      qed
    qed
  qed
qed

lemma es_consistente_bucle_no_lanza:
  "\<forall>r \<in> set rs. list_all (\<lambda>v. en v temp) (fst r) \<longrightarrow>
                 (\<exists>b. snd r (valores_de temp (fst r)) = Inr b) \<Longrightarrow>
   \<exists>b. es_consistente_bucle var temp rs = Inr b"
proof (induction rs)
  case Nil
  show ?case by (rule exI [of _ True]) simp
next
  case (Cons r rs)
  obtain vr f where r: "r = (vr, f)" by (cases r)
  from Cons.prems
  have "\<forall>r \<in> set rs. list_all (\<lambda>v. en v temp) (fst r) \<longrightarrow>
                      (\<exists>b. snd r (valores_de temp (fst r)) = Inr b)" by simp
  from Cons.IH [OF this] have ih: "\<exists>b. es_consistente_bucle var temp rs = Inr b" .
  show ?case
  proof (cases "var \<in> set vr \<and> list_all (\<lambda>v. en v temp) vr")
    case False
    with ih show ?thesis unfolding r by auto
  next
    case True
    with Cons.prems obtain c where c: "f (valores_de temp vr) = Inr c"
      unfolding r by auto
    show ?thesis
    proof (cases c)
      case True
      with c ih show ?thesis unfolding r by simp
    next
      case False
      with c ih show ?thesis unfolding r by auto
    qed
  qed
qed

lemma obtener_variables_conflicto_bucle_Inr:
  "obtener_variables_conflicto_bucle var a temp rs S0 = Inr S \<Longrightarrow>
   S = S0 \<union> set (concat (map (\<lambda>r. filter (\<lambda>v. v \<noteq> var \<and> en v a) (fst r))
                     (filter (violada var temp) (map total_de rs))))"
proof (induction rs arbitrary: S0)
  case Nil
  then show ?case by simp
next
  case (Cons r rs)
  obtain vr f where r: "r = (vr, f)" by (cases r)
  show ?case
  proof (cases "var \<in> set vr \<and> list_all (\<lambda>v. en v temp) vr")
    case False
    then have "\<not> violada var temp (total_de r)"
      by (auto simp: violada_def aplicable_def total_de_def r)
    moreover from False Cons.prems
    have "obtener_variables_conflicto_bucle var a temp rs S0 = Inr S"
      by (auto simp: r split: if_splits)
    ultimately show ?thesis using Cons.IH by simp
  next
    case True
    note ap' = True
    then have ap: "aplicable var temp (total_de r)"
      by (simp add: aplicable_def total_de_def r)
    show ?thesis
    proof (cases "f (valores_de temp vr)")
      case (Inl e)
      with True Cons.prems show ?thesis by (simp add: r)
    next
      case (Inr c)
      show ?thesis
      proof (cases c)
        case True
        with Inr have "\<not> violada var temp (total_de r)"
          by (simp add: violada_def total_de_def r respuesta_def)
        moreover from True Inr ap' Cons.prems
        have "obtener_variables_conflicto_bucle var a temp rs S0 = Inr S"
          by (simp add: r)
        ultimately show ?thesis using Cons.IH by simp
      next
        case False
        with Inr ap have v: "violada var temp (total_de r)"
          by (simp add: violada_def total_de_def r respuesta_def)
        from False Inr ap' Cons.prems
        have "obtener_variables_conflicto_bucle var a temp rs
                (S0 \<union> set (filter (\<lambda>v. v \<noteq> var \<and> en v a) vr)) = Inr S"
          by (simp add: r)
        from Cons.IH [OF this] v show ?thesis
          by (simp add: total_de_def r Un_assoc)
      qed
    qed
  qed
qed

lemma obtener_variables_conflicto_bucle_no_lanza:
  "\<forall>r \<in> set rs. list_all (\<lambda>v. en v temp) (fst r) \<longrightarrow>
                 (\<exists>b. snd r (valores_de temp (fst r)) = Inr b) \<Longrightarrow>
   \<exists>S. obtener_variables_conflicto_bucle var a temp rs S0 = Inr S"
proof (induction rs arbitrary: S0)
  case Nil
  show ?case by simp
next
  case (Cons r rs)
  obtain vr f where r: "r = (vr, f)" by (cases r)
  from Cons.prems
  have "\<forall>r \<in> set rs. list_all (\<lambda>v. en v temp) (fst r) \<longrightarrow>
                      (\<exists>b. snd r (valores_de temp (fst r)) = Inr b)" by simp
  from Cons.IH [OF this]
  have ih: "\<exists>S. obtener_variables_conflicto_bucle var a temp rs S0 = Inr S" for S0 .
  show ?case
  proof (cases "var \<in> set vr \<and> list_all (\<lambda>v. en v temp) vr")
    case False
    with ih [of S0] show ?thesis unfolding r by auto
  next
    case True
    with Cons.prems obtain c where c: "f (valores_de temp vr) = Inr c"
      unfolding r by auto
    from True c ih show ?thesis unfolding r by simp
  qed
qed

lemma restricciones_totalizar:
  "restricciones (totalizar csp) = map total_de (restricciones_exc csp)"
  by (simp add: totalizar_def total_de_def [abs_def])

lemma acordeI:
  "(\<And>r. x = Inr r \<Longrightarrow> y = Inr r) \<Longrightarrow> (nl \<Longrightarrow> x = y) \<Longrightarrow> acorde nl x y"
  unfolding acorde_def by blast

lemma acorde_Inr: "acorde nl x y \<Longrightarrow> x = Inr r \<Longrightarrow> y = Inr r"
  unfolding acorde_def by blast

lemma acorde_igual: "acorde nl x y \<Longrightarrow> nl \<Longrightarrow> x = y"
  unfolding acorde_def by blast

lemma es_consistente_exc_Inr:
  assumes "es_consistente_exc csp var valor a = Inr b"
  shows "es_consistente (totalizar csp) var valor a = b"
proof -
  note h = es_consistente_bucle_Inr [OF assms [unfolded es_consistente_exc_def]]
  show ?thesis
    unfolding es_consistente_def restricciones_totalizar by (rule h [symmetric])
qed

lemma es_consistente_exc_no_lanza:
  assumes "no_lanza csp" and "en_dominios csp (AList.update var valor a)"
  shows "\<exists>b. es_consistente_exc csp var valor a = Inr b"
proof -
  from assms
  have "\<forall>r \<in> set (restricciones_exc csp).
          list_all (\<lambda>v. en v (AList.update var valor a)) (fst r) \<longrightarrow>
          (\<exists>b. snd r (valores_de (AList.update var valor a) (fst r)) = Inr b)"
    unfolding no_lanza_def by blast
  from es_consistente_bucle_no_lanza [OF this]
  show ?thesis unfolding es_consistente_exc_def .
qed

lemma es_consistente_acorde:
  "acorde (no_lanza csp \<and> en_dominios csp (AList.update var valor a))
     (es_consistente_exc csp var valor a)
     (Inr (es_consistente (totalizar csp) var valor a))"
proof (rule acordeI)
  fix b
  assume "es_consistente_exc csp var valor a = Inr b"
  from es_consistente_exc_Inr [OF this]
  show "Inr (es_consistente (totalizar csp) var valor a) = (Inr b :: py_error + bool)"
    by (rule arg_cong [where f = Inr])
next
  assume "no_lanza csp \<and> en_dominios csp (AList.update var valor a)"
  then have "no_lanza csp" and "en_dominios csp (AList.update var valor a)" by blast+
  from es_consistente_exc_no_lanza [OF this]
  obtain b where b: "es_consistente_exc csp var valor a = Inr b" by blast
  from es_consistente_exc_Inr [OF b]
  have "(Inr b :: py_error + bool) = Inr (es_consistente (totalizar csp) var valor a)"
    by (rule arg_cong [where f = Inr, OF sym])
  with b show "es_consistente_exc csp var valor a = Inr (es_consistente (totalizar csp) var valor a)"
    by (rule trans)
qed

lemma obtener_variables_conflicto_exc_Inr:
  assumes "obtener_variables_conflicto_exc csp var valor a = Inr S"
  shows "obtener_variables_conflicto (totalizar csp) var valor a = S"
proof -
  note h = obtener_variables_conflicto_bucle_Inr
    [OF assms [unfolded obtener_variables_conflicto_exc_def]]
  have "{} \<union> X = X" for X :: "var set" by (rule Un_empty_left)
  from h [unfolded this] show ?thesis
    unfolding obtener_variables_conflicto_def restricciones_totalizar by (rule sym)
qed

lemma obtener_variables_conflicto_exc_no_lanza:
  assumes "no_lanza csp" and "en_dominios csp (AList.update var valor a)"
  shows "\<exists>S. obtener_variables_conflicto_exc csp var valor a = Inr S"
proof -
  from assms
  have "\<forall>r \<in> set (restricciones_exc csp).
          list_all (\<lambda>v. en v (AList.update var valor a)) (fst r) \<longrightarrow>
          (\<exists>b. snd r (valores_de (AList.update var valor a) (fst r)) = Inr b)"
    unfolding no_lanza_def by blast
  from obtener_variables_conflicto_bucle_no_lanza [OF this]
  show ?thesis unfolding obtener_variables_conflicto_exc_def .
qed

lemma obtener_variables_conflicto_acorde:
  "acorde (no_lanza csp \<and> en_dominios csp (AList.update var valor a))
     (obtener_variables_conflicto_exc csp var valor a)
     (Inr (obtener_variables_conflicto (totalizar csp) var valor a))"
proof (rule acordeI)
  fix S
  assume "obtener_variables_conflicto_exc csp var valor a = Inr S"
  from obtener_variables_conflicto_exc_Inr [OF this]
  show "Inr (obtener_variables_conflicto (totalizar csp) var valor a) = (Inr S :: py_error + var set)"
    by (rule arg_cong [where f = Inr])
next
  assume "no_lanza csp \<and> en_dominios csp (AList.update var valor a)"
  then have "no_lanza csp" and "en_dominios csp (AList.update var valor a)" by blast+
  from obtener_variables_conflicto_exc_no_lanza [OF this]
  obtain S where S: "obtener_variables_conflicto_exc csp var valor a = Inr S" by blast
  from obtener_variables_conflicto_exc_Inr [OF S]
  have "(Inr S :: py_error + var set) = Inr (obtener_variables_conflicto (totalizar csp) var valor a)"
    by (rule arg_cong [where f = Inr, OF sym])
  with S show "obtener_variables_conflicto_exc csp var valor a =
        Inr (obtener_variables_conflicto (totalizar csp) var valor a)"
    by (rule trans)
qed

lemma acorde_refl: "acorde nl x x"
  unfolding acorde_def by blast

lemma acorde_Inl: "acorde nl x y \<Longrightarrow> nl \<Longrightarrow> x = Inl e \<Longrightarrow> y = Inl e"
  unfolding acorde_def by blast

lemma acorde_Inl_izq: "(nl \<Longrightarrow> y = Inl e) \<Longrightarrow> acorde nl (Inl e) y"
  unfolding acorde_def by blast

lemma primer_resultado_acorde:
  assumes "\<forall>x \<in> set xs. acorde nl (f x) (g x)"
  shows "acorde nl (primer_resultado f xs) (primer_resultado g xs)"
  using assms
proof (induction xs)
  case Nil
  show ?case by (simp add: acorde_refl)
next
  case (Cons x xs)
  from Cons.prems have ax: "acorde nl (f x) (g x)" by simp
  from Cons.prems have "\<forall>x \<in> set xs. acorde nl (f x) (g x)" by simp
  from Cons.IH [OF this] have ih: "acorde nl (primer_resultado f xs) (primer_resultado g xs)" .
  show ?case
  proof (cases "f x")
    case (Inl e)
    have "acorde nl (Inl e) (primer_resultado g (x # xs))"
    proof (rule acorde_Inl_izq)
      assume nl
      from acorde_Inl [OF ax this Inl] show "primer_resultado g (x # xs) = Inl e" by simp
    qed
    with Inl show ?thesis by simp
  next
    case (Inr r)
    from acorde_Inr [OF ax Inr] have g: "g x = Inr r" .
    show ?thesis
    proof (cases r)
      case None
      with Inr g ih show ?thesis by simp
    next
      case (Some a)
      with Inr g show ?thesis by (simp add: acorde_refl)
    qed
  qed
qed

lemma iterar_acorde:
  assumes "\<forall>x \<in> set xs. \<forall>s. acorde nl (f x s) (g x s)"
  shows "acorde nl (iterar f xs s) (iterar g xs s)"
  using assms
proof (induction xs arbitrary: s)
  case Nil
  show ?case by (simp add: acorde_refl)
next
  case (Cons x xs)
  from Cons.prems have ax: "acorde nl (f x s) (g x s)" by simp
  from Cons.prems have "\<forall>x \<in> set xs. \<forall>s. acorde nl (f x s) (g x s)" by simp
  from Cons.IH [OF this] have ih: "acorde nl (iterar f xs t) (iterar g xs t)" for t .
  show ?case
  proof (cases "f x s")
    case (Inl e)
    have "acorde nl (Inl e) (iterar g (x # xs) s)"
    proof (rule acorde_Inl_izq)
      assume nl
      from acorde_Inl [OF ax this Inl] show "iterar g (x # xs) s = Inl e" by simp
    qed
    with Inl show ?thesis by simp
  next
    case (Inr r)
    from acorde_Inr [OF ax Inr] have g: "g x s = Inr r" .
    show ?thesis
    proof (cases r)
      case (Inl u)
      with Inr g show ?thesis by (simp add: acorde_refl)
    next
      case (Inr t)
      with \<open>f x s = Inr r\<close> g ih [of t] show ?thesis by simp
    qed
  qed
qed

lemma acorde_caso:
  assumes "acorde nl x y"
  shows "acorde nl (case x of Inl e \<Rightarrow> Inl e | Inr u \<Rightarrow> k u) (case y of Inl e \<Rightarrow> Inl e | Inr u \<Rightarrow> k u)"
proof (cases x)
  case (Inl e)
  have "acorde nl (Inl e) (case y of Inl e \<Rightarrow> Inl e | Inr u \<Rightarrow> k u)"
  proof (rule acorde_Inl_izq)
    assume nl
    from acorde_Inl [OF assms this Inl]
    show "(case y of Inl e \<Rightarrow> Inl e | Inr u \<Rightarrow> k u) = Inl e" by simp
  qed
  with Inl show ?thesis by simp
next
  case (Inr u)
  from acorde_Inr [OF assms Inr] Inr show ?thesis by (simp add: acorde_refl)
qed

lemma cuerpo_bt_acorde:
  assumes "es_consistente_exc csp var valor a = Inr True \<Longrightarrow>
           acorde (no_lanza csp \<and> en_dominios csp (AList.update var valor a))
             (backtrack_exc csp (AList.update var valor a))
             (backtrack (totalizar csp) (AList.update var valor a))"
  shows "acorde (no_lanza csp \<and> en_dominios csp (AList.update var valor a))
           (cuerpo_bt_exc csp a var valor) (cuerpo_bt (totalizar csp) a var valor)"
proof (cases "es_consistente_exc csp var valor a")
  case (Inl e)
  have "acorde (no_lanza csp \<and> en_dominios csp (AList.update var valor a))
          (Inl e) (cuerpo_bt (totalizar csp) a var valor)"
  proof (rule acorde_Inl_izq)
    assume "no_lanza csp \<and> en_dominios csp (AList.update var valor a)"
    from acorde_igual [OF es_consistente_acorde this] Inl
    show "cuerpo_bt (totalizar csp) a var valor = Inl e" by simp
  qed
  with Inl show ?thesis by (simp add: cuerpo_bt_exc_def)
next
  case (Inr b)
  from es_consistente_exc_Inr [OF Inr] have t: "es_consistente (totalizar csp) var valor a = b" .
  show ?thesis
  proof (cases b)
    case True
    with Inr assms t show ?thesis by (simp add: cuerpo_bt_exc_def cuerpo_bt_def)
  next
    case False
    with Inr t show ?thesis by (simp add: cuerpo_bt_exc_def cuerpo_bt_def acorde_refl)
  qed
qed

lemma seleccionar_variable_no_asignada_totalizar:
  "seleccionar_variable_no_asignada (totalizar csp) a = seleccionar_variable_no_asignada_exc csp a"
  by (simp add: seleccionar_variable_no_asignada_def seleccionar_variable_no_asignada_exc_def)

lemma seleccionar_variable_totalizar:
  "seleccionar_variable (totalizar csp) a = seleccionar_variable_exc csp a"
  by (simp add: seleccionar_variable_def seleccionar_variable_exc_def)

lemma en_dominios_update:
  assumes "en_dominios csp a" and "map_of (dominios_exc csp) var = Some valores"
    and "valor \<in> set valores"
  shows "en_dominios csp (AList.update var valor a)"
  using assms unfolding en_dominios_def by (auto simp: update_conv')

lemma en_dominios_vacia: "en_dominios csp []"
  by (simp add: en_dominios_def)

lemma acorde_mono: "acorde nl' x y \<Longrightarrow> (nl \<Longrightarrow> nl') \<Longrightarrow> acorde nl x y"
  unfolding acorde_def by blast

lemma backtrack_acorde:
  "acorde (no_lanza csp \<and> en_dominios csp a) (backtrack_exc csp a) (backtrack (totalizar csp) a)"
proof (induction csp a rule: backtrack_exc.induct)
  case (1 csp a)
  show ?case
  proof (cases "length a = length (variables_exc csp)")
    case True
    then show ?thesis
      by (simp add: backtrack_exc_desplegado backtrack_desplegado acorde_refl)
  next
    case False
    note nl = False
    show ?thesis
    proof (cases "seleccionar_variable_no_asignada_exc csp a")
      case None
      with nl show ?thesis
        by (simp add: backtrack_exc_desplegado backtrack_desplegado acorde_refl
            seleccionar_variable_no_asignada_totalizar)
    next
      case (Some var)
      note sel = Some
      show ?thesis
      proof (cases "map_of (dominios_exc csp) var")
        case None
        with nl sel show ?thesis
          by (simp add: backtrack_exc_desplegado backtrack_desplegado acorde_refl
              seleccionar_variable_no_asignada_totalizar)
      next
        case (Some valores)
        note dom = Some
        have "\<forall>valor \<in> set valores.
                acorde (no_lanza csp \<and> en_dominios csp a) (cuerpo_bt_exc csp a var valor)
                  (cuerpo_bt (totalizar csp) a var valor)"
        proof
          fix valor
          assume v: "valor \<in> set valores"
          have "acorde (no_lanza csp \<and> en_dominios csp (AList.update var valor a))
                  (cuerpo_bt_exc csp a var valor) (cuerpo_bt (totalizar csp) a var valor)"
          proof (rule cuerpo_bt_acorde)
            assume c: "es_consistente_exc csp var valor a = Inr True"
            from "1.IH" [OF nl sel dom v c]
            show "acorde (no_lanza csp \<and> en_dominios csp (AList.update var valor a))
                    (backtrack_exc csp (AList.update var valor a))
                    (backtrack (totalizar csp) (AList.update var valor a))" by simp
          qed
          then show "acorde (no_lanza csp \<and> en_dominios csp a) (cuerpo_bt_exc csp a var valor)
                  (cuerpo_bt (totalizar csp) a var valor)"
          proof (rule acorde_mono)
            assume "no_lanza csp \<and> en_dominios csp a"
            with en_dominios_update [OF _ dom v]
            show "no_lanza csp \<and> en_dominios csp (AList.update var valor a)" by blast
          qed
        qed
        from primer_resultado_acorde [OF this] nl sel dom show ?thesis
          by (simp add: backtrack_exc_desplegado backtrack_desplegado
              seleccionar_variable_no_asignada_totalizar)
      qed
    qed
  qed
qed

lemma cuerpo_bj_acorde:
  assumes "es_consistente_exc csp var valor a = Inr True \<Longrightarrow>
           acorde (no_lanza csp \<and> en_dominios csp (AList.update var valor a))
             (backjump_exc csp (AList.update var valor a))
             (backjump (totalizar csp) (AList.update var valor a))"
  shows "acorde (no_lanza csp \<and> en_dominios csp (AList.update var valor a))
           (cuerpo_bj_exc csp a var valor s) (cuerpo_bj (totalizar csp) a var valor s)"
proof (cases "es_consistente_exc csp var valor a")
  case (Inl e)
  have "acorde (no_lanza csp \<and> en_dominios csp (AList.update var valor a))
          (Inl e) (cuerpo_bj (totalizar csp) a var valor s)"
  proof (rule acorde_Inl_izq)
    assume "no_lanza csp \<and> en_dominios csp (AList.update var valor a)"
    from acorde_igual [OF es_consistente_acorde this] Inl
    show "cuerpo_bj (totalizar csp) a var valor s = Inl e" by simp
  qed
  with Inl show ?thesis by (simp add: cuerpo_bj_exc_def)
next
  case (Inr b)
  from es_consistente_exc_Inr [OF Inr] have t: "es_consistente (totalizar csp) var valor a = b" .
  show ?thesis
  proof (cases b)
    case True
    with Inr assms
    have "acorde (no_lanza csp \<and> en_dominios csp (AList.update var valor a))
            (backjump_exc csp (AList.update var valor a))
            (backjump (totalizar csp) (AList.update var valor a))" by simp
    from acorde_caso [OF this] True Inr t show ?thesis
      by (simp add: cuerpo_bj_exc_def cuerpo_bj_def)
  next
    case False
    have "acorde (no_lanza csp \<and> en_dominios csp (AList.update var valor a))
            (case obtener_variables_conflicto_exc csp var valor a of
               Inl e \<Rightarrow> Inl e
             | Inr conflictos \<Rightarrow> Inr (Inr (s \<union> conflictos)))
            (case Inr (obtener_variables_conflicto (totalizar csp) var valor a) of
               Inl e \<Rightarrow> Inl e
             | Inr conflictos \<Rightarrow> (Inr (Inr (s \<union> conflictos))
                 :: py_error + ('a resultado_bj + var set)))"
      by (rule acorde_caso [OF obtener_variables_conflicto_acorde])
    with False Inr t show ?thesis
      by (simp add: cuerpo_bj_exc_def cuerpo_bj_def)
  qed
qed

lemma backjump_acorde:
  "acorde (no_lanza csp \<and> en_dominios csp a) (backjump_exc csp a) (backjump (totalizar csp) a)"
proof (induction csp a rule: backjump_exc.induct)
  case (1 csp a)
  show ?case
  proof (cases "length a = length (variables_exc csp)")
    case True
    then show ?thesis
      by (simp add: backjump_exc_desplegado backjump_desplegado acorde_refl)
  next
    case False
    note nl = False
    show ?thesis
    proof (cases "seleccionar_variable_exc csp a")
      case None
      with nl show ?thesis
        by (simp add: backjump_exc_desplegado backjump_desplegado acorde_refl
            seleccionar_variable_totalizar)
    next
      case (Some var)
      note sel = Some
      show ?thesis
      proof (cases "map_of (dominios_exc csp) var")
        case None
        with nl sel show ?thesis
          by (simp add: backjump_exc_desplegado backjump_desplegado acorde_refl
              seleccionar_variable_totalizar)
      next
        case (Some valores)
        note dom = Some
        have "\<forall>valor \<in> set valores. \<forall>s.
                acorde (no_lanza csp \<and> en_dominios csp a) (cuerpo_bj_exc csp a var valor s)
                  (cuerpo_bj (totalizar csp) a var valor s)"
        proof (intro ballI allI)
          fix valor s
          assume v: "valor \<in> set valores"
          have "acorde (no_lanza csp \<and> en_dominios csp (AList.update var valor a))
                  (cuerpo_bj_exc csp a var valor s) (cuerpo_bj (totalizar csp) a var valor s)"
          proof (rule cuerpo_bj_acorde)
            assume c: "es_consistente_exc csp var valor a = Inr True"
            from "1.IH" [OF nl sel dom v c]
            show "acorde (no_lanza csp \<and> en_dominios csp (AList.update var valor a))
                    (backjump_exc csp (AList.update var valor a))
                    (backjump (totalizar csp) (AList.update var valor a))" by simp
          qed
          then show "acorde (no_lanza csp \<and> en_dominios csp a) (cuerpo_bj_exc csp a var valor s)
                  (cuerpo_bj (totalizar csp) a var valor s)"
          proof (rule acorde_mono)
            assume "no_lanza csp \<and> en_dominios csp a"
            with en_dominios_update [OF _ dom v]
            show "no_lanza csp \<and> en_dominios csp (AList.update var valor a)" by blast
          qed
        qed
        from iterar_acorde [OF this]
        have "acorde (no_lanza csp \<and> en_dominios csp a)
                (iterar (cuerpo_bj_exc csp a var) valores {})
                (iterar (cuerpo_bj (totalizar csp) a var) valores {})" .
        from acorde_caso [OF this] nl sel dom show ?thesis
          by (simp add: backjump_exc_desplegado backjump_desplegado
              seleccionar_variable_totalizar)
      qed
    qed
  qed
qed

lemma resolver_acorde:
  "acorde (no_lanza csp) (resolver_exc csp) (resolver (totalizar csp))"
proof (rule acorde_mono)
  show "acorde (no_lanza csp \<and> en_dominios csp []) (resolver_exc csp) (resolver (totalizar csp))"
    unfolding resolver_exc_def resolver_def by (rule backtrack_acorde)
  assume "no_lanza csp"
  with en_dominios_vacia show "no_lanza csp \<and> en_dominios csp []" by blast
qed

lemma resolver_backjumping_acorde:
  "acorde (no_lanza csp) (resolver_backjumping_exc csp) (resolver_backjumping (totalizar csp))"
proof (rule acorde_mono)
  show "acorde (no_lanza csp \<and> en_dominios csp [])
          (resolver_backjumping_exc csp) (resolver_backjumping (totalizar csp))"
    unfolding resolver_backjumping_exc_def resolver_backjumping_def
    by (rule acorde_caso [OF backjump_acorde])
  assume "no_lanza csp"
  with en_dominios_vacia show "no_lanza csp \<and> en_dominios csp []" by blast
qed

text \<open>
  On a CSP whose predicates are total functions the two models coincide: the checks and
  the solvers of this section return what those of the earlier sections return.
\<close>

lemma elevar_campos [simp]:
  "variables_exc (elevar csp) = variables csp"
  "dominios_exc (elevar csp) = dominios csp"
  by (simp_all add: elevar_def)

lemma restricciones_elevar:
  "map total_de (restricciones_exc (elevar csp)) = restricciones csp"
proof -
  have "total_de (fst r, \<lambda>valores. Inr (snd r valores)) = r" for r :: "'a restriccion"
    by (simp add: total_de_def respuesta_def)
  then show ?thesis
    by (simp add: elevar_def comp_def)
qed

lemma elevar_responde:
  "\<forall>r \<in> set (restricciones_exc (elevar csp)).
     list_all (\<lambda>v. en v temp) (fst r) \<longrightarrow> (\<exists>b. snd r (valores_de temp (fst r)) = Inr b)"
  by (auto simp: elevar_def)

lemma es_consistente_elevar:
  "es_consistente_exc (elevar csp) var valor a = Inr (es_consistente csp var valor a)"
proof -
  from es_consistente_bucle_no_lanza [OF elevar_responde]
  obtain b where b: "es_consistente_exc (elevar csp) var valor a = Inr b"
    unfolding es_consistente_exc_def by blast
  from es_consistente_bucle_Inr [OF b [unfolded es_consistente_exc_def]]
  have "b = es_consistente csp var valor a"
    unfolding restricciones_elevar es_consistente_def .
  with b show ?thesis by simp
qed

lemma obtener_variables_conflicto_elevar:
  "obtener_variables_conflicto_exc (elevar csp) var valor a =
   Inr (obtener_variables_conflicto csp var valor a)"
proof -
  from obtener_variables_conflicto_bucle_no_lanza [OF elevar_responde]
  obtain S where S: "obtener_variables_conflicto_exc (elevar csp) var valor a = Inr S"
    unfolding obtener_variables_conflicto_exc_def by blast
  have e: "{} \<union> X = X" for X :: "var set" by (rule Un_empty_left)
  from obtener_variables_conflicto_bucle_Inr [OF S [unfolded obtener_variables_conflicto_exc_def]]
  have "S = obtener_variables_conflicto csp var valor a"
    unfolding restricciones_elevar obtener_variables_conflicto_def e .
  with S show ?thesis by simp
qed

lemma backtrack_elevar: "backtrack_exc (elevar csp) a = backtrack csp a"
proof (induction csp a rule: backtrack.induct)
  case (1 csp a)
  show ?case
  proof (cases "length a = length (variables csp)")
    case True
    then show ?thesis by (simp add: backtrack_exc_desplegado backtrack_desplegado)
  next
    case False
    note nl = False
    have sel: "seleccionar_variable_no_asignada_exc (elevar csp) a =
               seleccionar_variable_no_asignada csp a"
      by (simp add: seleccionar_variable_no_asignada_exc_def seleccionar_variable_no_asignada_def)
    show ?thesis
    proof (cases "seleccionar_variable_no_asignada csp a")
      case None
      with nl sel show ?thesis by (simp add: backtrack_exc_desplegado backtrack_desplegado)
    next
      case (Some var)
      note s = Some
      show ?thesis
      proof (cases "map_of (dominios csp) var")
        case None
        with nl sel s show ?thesis by (simp add: backtrack_exc_desplegado backtrack_desplegado)
      next
        case (Some valores)
        note dom = Some
        have "cuerpo_bt_exc (elevar csp) a var valor = cuerpo_bt csp a var valor"
          if "valor \<in> set valores" for valor
          using "1.IH" [OF nl s dom that]
          by (simp add: cuerpo_bt_exc_def cuerpo_bt_def es_consistente_elevar)
        then have "primer_resultado (cuerpo_bt_exc (elevar csp) a var) valores =
                   primer_resultado (cuerpo_bt csp a var) valores"
          by (rule primer_resultado_cong [OF refl])
        with nl sel s dom show ?thesis
          by (simp add: backtrack_exc_desplegado backtrack_desplegado)
      qed
    qed
  qed
qed

lemma backjump_elevar: "backjump_exc (elevar csp) a = backjump csp a"
proof (induction csp a rule: backjump.induct)
  case (1 csp a)
  show ?case
  proof (cases "length a = length (variables csp)")
    case True
    then show ?thesis by (simp add: backjump_exc_desplegado backjump_desplegado)
  next
    case False
    note nl = False
    have sel: "seleccionar_variable_exc (elevar csp) a = seleccionar_variable csp a"
      by (simp add: seleccionar_variable_exc_def seleccionar_variable_def)
    show ?thesis
    proof (cases "seleccionar_variable csp a")
      case None
      with nl sel show ?thesis by (simp add: backjump_exc_desplegado backjump_desplegado)
    next
      case (Some var)
      note s = Some
      show ?thesis
      proof (cases "map_of (dominios csp) var")
        case None
        with nl sel s show ?thesis by (simp add: backjump_exc_desplegado backjump_desplegado)
      next
        case (Some valores)
        note dom = Some
        have "cuerpo_bj_exc (elevar csp) a var valor u = cuerpo_bj csp a var valor u"
          if "valor \<in> set valores" for valor u
          using "1.IH" [OF nl s dom that]
          by (simp add: cuerpo_bj_exc_def cuerpo_bj_def es_consistente_elevar
              obtener_variables_conflicto_elevar)
        then have "iterar (cuerpo_bj_exc (elevar csp) a var) valores {} =
                   iterar (cuerpo_bj csp a var) valores {}"
          by (rule iterar_cong [OF refl refl])
        with nl sel s dom show ?thesis
          by (simp add: backjump_exc_desplegado backjump_desplegado)
      qed
    qed
  qed
qed

lemma resolver_elevar: "resolver_exc (elevar csp) = resolver csp"
  by (simp add: resolver_exc_def resolver_def backtrack_elevar)

lemma resolver_backjumping_elevar:
  "resolver_backjumping_exc (elevar csp) = resolver_backjumping csp"
  by (simp add: resolver_backjumping_exc_def resolver_backjumping_def backjump_elevar)

subsection \<open>Backjumping and plain backtracking\<close>

text \<open>
  C8, amended. If no predicate raises on values of the domains, or if both solvers
  return rather than raise, then \<open>SolucionadorBackjumping.resolver\<close> returns an assignment
  exactly when \<open>SolucionadorBacktracking.resolver\<close> does, and it is the same assignment.
\<close>

theorem backjumping_equivale_a_backtracking:
  assumes "no_lanza csp \<or>
           (\<exists>x y. resolver_backjumping_exc csp = Inr x \<and> resolver_exc csp = Inr y)"
  shows "((\<exists>a. resolver_backjumping_exc csp = Inr (Some (Exito a))) \<longleftrightarrow>
          (\<exists>a. resolver_exc csp = Inr (Some a))) \<and>
         (\<forall>a. resolver_backjumping_exc csp = Inr (Some (Exito a)) \<longleftrightarrow>
              resolver_exc csp = Inr (Some a))"
proof -
  have "resolver_backjumping_exc csp = Inr (Some (Exito a)) \<longleftrightarrow>
        resolver_exc csp = Inr (Some a)" for a
    using assms
  proof
    assume nl: "no_lanza csp"
    from acorde_igual [OF resolver_acorde nl] acorde_igual [OF resolver_backjumping_acorde nl]
      backjumping_misma_solucion [of "totalizar csp" a]
    show ?thesis by simp
  next
    assume "\<exists>x y. resolver_backjumping_exc csp = Inr x \<and> resolver_exc csp = Inr y"
    then obtain x y where x: "resolver_backjumping_exc csp = Inr x"
      and y: "resolver_exc csp = Inr y" by blast
    from acorde_Inr [OF resolver_backjumping_acorde x] acorde_Inr [OF resolver_acorde y]
      backjumping_misma_solucion [of "totalizar csp" a] x y
    show ?thesis by simp
  qed
  then show ?thesis by blast
qed

lemma csp_div_ok_campos [simp]:
  "variables_exc csp_div_ok = [''A'', ''B'', ''C'']"
  "dominios_exc csp_div_ok = [(''A'', [1]), (''B'', [2]), (''C'', [1, 2])]"
  "restricciones_exc csp_div_ok = [([''A'', ''C''], distintos_exc), ([''B'', ''C''], divisible)]"
  by (simp_all add: csp_div_ok_def)

lemma no_lanza_div_ok: "no_lanza csp_div_ok"
proof -
  have "\<exists>b. divisible (valores_de a [''B'', ''C'']) = Inr b"
    if d: "en_dominios csp_div_ok a" and e: "en ''C'' a" for a
  proof -
    from e obtain x where x: "map_of a ''C'' = Some x" by (auto simp: en_def)
    with d obtain ds where "map_of (dominios_exc csp_div_ok) ''C'' = Some ds" and "x \<in> set ds"
      unfolding en_dominios_def by blast
    then have "x \<noteq> 0" by auto
    with x show ?thesis by (simp add: valores_de_def)
  qed
  then show ?thesis
    by (simp add: no_lanza_def valores_de_def)
qed

lemma consistente_div_ok:
  "es_consistente_exc csp_div_ok ''A'' 1 [] = Inr True"
  "es_consistente_exc csp_div_ok ''B'' 2 [(''A'', 1)] = Inr True"
  "es_consistente_exc csp_div_ok ''C'' 1 [(''A'', 1), (''B'', 2)] = Inr False"
  "es_consistente_exc csp_div_ok ''C'' 2 [(''A'', 1), (''B'', 2)] = Inr True"
  by (simp_all add: es_consistente_exc_def en_def valores_de_def)

lemma conflicto_div_ok:
  "obtener_variables_conflicto_exc csp_div_ok ''C'' 1 [(''A'', 1), (''B'', 2)] = Inr {''A''}"
  by (simp add: obtener_variables_conflicto_exc_def en_def valores_de_def)

lemma backtrack_div_ok_3:
  "backtrack_exc csp_div_ok [(''A'', 1), (''B'', 2), (''C'', 2)]
   = Inr (Some [(''A'', 1), (''B'', 2), (''C'', 2)])"
  by (subst backtrack_exc_desplegado) simp

lemma backtrack_div_ok_2:
  "backtrack_exc csp_div_ok [(''A'', 1), (''B'', 2)]
   = Inr (Some [(''A'', 1), (''B'', 2), (''C'', 2)])"
  by (subst backtrack_exc_desplegado)
    (simp add: seleccionar_variable_no_asignada_exc_def en_def cuerpo_bt_exc_def
      consistente_div_ok backtrack_div_ok_3)

lemma backtrack_div_ok_1:
  "backtrack_exc csp_div_ok [(''A'', 1)] = Inr (Some [(''A'', 1), (''B'', 2), (''C'', 2)])"
  by (subst backtrack_exc_desplegado)
    (simp add: seleccionar_variable_no_asignada_exc_def en_def cuerpo_bt_exc_def
      consistente_div_ok backtrack_div_ok_2)

lemma backtrack_div_ok_0:
  "backtrack_exc csp_div_ok [] = Inr (Some [(''A'', 1), (''B'', 2), (''C'', 2)])"
  by (subst backtrack_exc_desplegado)
    (simp add: seleccionar_variable_no_asignada_exc_def en_def cuerpo_bt_exc_def
      consistente_div_ok backtrack_div_ok_1)

lemma backjump_div_ok_3:
  "backjump_exc csp_div_ok [(''A'', 1), (''B'', 2), (''C'', 2)]
   = Inr (Exito [(''A'', 1), (''B'', 2), (''C'', 2)])"
  by (subst backjump_exc_desplegado) simp

lemma backjump_div_ok_2:
  "backjump_exc csp_div_ok [(''A'', 1), (''B'', 2)]
   = Inr (Exito [(''A'', 1), (''B'', 2), (''C'', 2)])"
  by (subst backjump_exc_desplegado)
    (simp add: seleccionar_variable_exc_def en_def cuerpo_bj_exc_def
      consistente_div_ok conflicto_div_ok backjump_div_ok_3)

lemma backjump_div_ok_1:
  "backjump_exc csp_div_ok [(''A'', 1)] = Inr (Exito [(''A'', 1), (''B'', 2), (''C'', 2)])"
  by (subst backjump_exc_desplegado)
    (simp add: seleccionar_variable_exc_def en_def cuerpo_bj_exc_def
      consistente_div_ok backjump_div_ok_2)

lemma backjump_div_ok_0:
  "backjump_exc csp_div_ok [] = Inr (Exito [(''A'', 1), (''B'', 2), (''C'', 2)])"
  by (subst backjump_exc_desplegado)
    (simp add: seleccionar_variable_exc_def en_def cuerpo_bj_exc_def
      consistente_div_ok backjump_div_ok_1)

text \<open>
  On \<open>csp_div_ok\<close> no call raises; backjumping collects the conflict set \<open>{A}\<close> at \<open>C = 1\<close>,
  calling both predicates, and both solvers return \<open>{A: 1, B: 2, C: 2}\<close>.
\<close>

theorem backjumping_equivale_a_backtracking_witness:
  "no_lanza csp_div_ok \<and>
   obtener_variables_conflicto_exc csp_div_ok ''C'' 1 [(''A'', 1), (''B'', 2)] = Inr {''A''} \<and>
   resolver_backjumping_exc csp_div_ok = Inr (Some (Exito [(''A'', 1), (''B'', 2), (''C'', 2)])) \<and>
   resolver_exc csp_div_ok = Inr (Some [(''A'', 1), (''B'', 2), (''C'', 2)])"
proof -
  have r: "resolver_exc csp_div_ok = Inr (Some [(''A'', 1), (''B'', 2), (''C'', 2)])"
    by (simp add: resolver_exc_def backtrack_div_ok_0)
  from backjumping_equivale_a_backtracking [of csp_div_ok] no_lanza_div_ok r conflicto_div_ok
  show ?thesis by simp
qed

lemma csp_div_campos [simp]:
  "variables_exc csp_div = [''A'', ''B'', ''C'']"
  "dominios_exc csp_div = [(''A'', [0]), (''B'', [0]), (''C'', [0, 1])]"
  "restricciones_exc csp_div = [([''A'', ''C''], distintos_exc), ([''B'', ''C''], divisible)]"
  by (simp_all add: csp_div_def)

lemma consistente_div:
  "es_consistente_exc csp_div ''A'' 0 [] = Inr True"
  "es_consistente_exc csp_div ''B'' 0 [(''A'', 0)] = Inr True"
  "es_consistente_exc csp_div ''C'' 0 [(''A'', 0), (''B'', 0)] = Inr False"
  "es_consistente_exc csp_div ''C'' 1 [(''A'', 0), (''B'', 0)] = Inr True"
  by (simp_all add: es_consistente_exc_def en_def valores_de_def)

lemma conflicto_div:
  "obtener_variables_conflicto_exc csp_div ''C'' 0 [(''A'', 0), (''B'', 0)] = Inl ZeroDivisionError"
  by (simp add: obtener_variables_conflicto_exc_def en_def valores_de_def)

lemma backtrack_div_3:
  "backtrack_exc csp_div [(''A'', 0), (''B'', 0), (''C'', 1)]
   = Inr (Some [(''A'', 0), (''B'', 0), (''C'', 1)])"
  by (subst backtrack_exc_desplegado) simp

lemma backtrack_div_2:
  "backtrack_exc csp_div [(''A'', 0), (''B'', 0)] = Inr (Some [(''A'', 0), (''B'', 0), (''C'', 1)])"
  by (subst backtrack_exc_desplegado)
    (simp add: seleccionar_variable_no_asignada_exc_def en_def cuerpo_bt_exc_def
      consistente_div backtrack_div_3)

lemma backtrack_div_1:
  "backtrack_exc csp_div [(''A'', 0)] = Inr (Some [(''A'', 0), (''B'', 0), (''C'', 1)])"
  by (subst backtrack_exc_desplegado)
    (simp add: seleccionar_variable_no_asignada_exc_def en_def cuerpo_bt_exc_def
      consistente_div backtrack_div_2)

lemma backtrack_div_0:
  "backtrack_exc csp_div [] = Inr (Some [(''A'', 0), (''B'', 0), (''C'', 1)])"
  by (subst backtrack_exc_desplegado)
    (simp add: seleccionar_variable_no_asignada_exc_def en_def cuerpo_bt_exc_def
      consistente_div backtrack_div_1)

lemma backjump_div_2:
  "backjump_exc csp_div [(''A'', 0), (''B'', 0)] = Inl ZeroDivisionError"
  by (subst backjump_exc_desplegado)
    (simp add: seleccionar_variable_exc_def en_def cuerpo_bj_exc_def
      consistente_div conflicto_div)

lemma backjump_div_1:
  "backjump_exc csp_div [(''A'', 0)] = Inl ZeroDivisionError"
  by (subst backjump_exc_desplegado)
    (simp add: seleccionar_variable_exc_def en_def cuerpo_bj_exc_def
      consistente_div backjump_div_2)

lemma backjump_div_0:
  "backjump_exc csp_div [] = Inl ZeroDivisionError"
  by (subst backjump_exc_desplegado)
    (simp add: seleccionar_variable_exc_def en_def cuerpo_bj_exc_def
      consistente_div backjump_div_1)

text \<open>
  C8 as stated fails when a predicate raises. On \<open>csp_div\<close>, at \<open>C = 0\<close> the consistency
  check stops at the violated \<open>A \<noteq> C\<close>; plain backtracking goes on to \<open>C = 1\<close> and returns
  \<open>{A: 0, B: 0, C: 1}\<close>, while backjumping asks for the conflict variables, which calls
  \<open>B % C == 0\<close> with \<open>C = 0\<close>, and \<open>ZeroDivisionError\<close> leaves \<open>resolver\<close>.
\<close>

theorem backjumping_lanza_donde_backtracking_resuelve:
  "resolver_exc csp_div = Inr (Some [(''A'', 0), (''B'', 0), (''C'', 1)]) \<and>
   resolver_backjumping_exc csp_div = Inl ZeroDivisionError"
  by (simp add: resolver_exc_def resolver_backjumping_exc_def backtrack_div_0 backjump_div_0)

end
